theory Spec2Isabelle
  imports Main
begin

section \<open>The transit-gateway attachment handler (AWS-TGW-att.py)\<close>

text \<open>
  The handler is one linear procedure over two provider clients (EC2 and IAM) and one
  HTTP callback. Every provider call is an effect on a world outside the program, so the
  embedding threads a run state through every function: the provider's own state and the
  trace of calls issued so far. A provider is any function from its state and a call to
  an answer (a response, or a raised exception) and a next state; the theorems below hold
  for every provider unless they say otherwise.

  Logging (\<open>log.info\<close>, \<open>log.error\<close>, \<open>print\<close>, \<open>setup_logging\<close>) writes
  to the log stream only, concatenates strings with strings, and neither raises nor
  reaches the provider; it is left out of the trace.
\<close>

subsection \<open>Python values and exceptions\<close>

datatype py_error = KeyError | TypeError | IndexError | ClientError

text \<open>
  The two kinds of value that meet in the comparisons of lines 92 and 242: a string (the
  route's \<open>DestinationCidrBlock\<close>) and a list of strings (the \<open>cidr\<close> parameter).
  Python's \<open>==\<close> between a \<open>str\<close> and a \<open>list\<close> is \<open>False\<close>.
\<close>

datatype pyval = PyStr string | PyList "string list"

fun py_eq :: "pyval \<Rightarrow> pyval \<Rightarrow> bool" where
  "py_eq (PyStr a) (PyStr b) = (a = b)"
| "py_eq (PyList a) (PyList b) = (a = b)"
| "py_eq (PyStr a) (PyList b) = False"
| "py_eq (PyList a) (PyStr b) = False"

text \<open>\<open>str.split(",")\<close>: always at least one piece; an empty string gives one empty piece.\<close>

fun split_on :: "char \<Rightarrow> string \<Rightarrow> string list" where
  "split_on c [] = [[]]"
| "split_on c (x # xs) =
     (if x = c then [] # split_on c xs
      else (case split_on c xs of
              [] \<Rightarrow> [[x]]
            | w # ws \<Rightarrow> (x # w) # ws))"

text \<open>\<open>str.replace(' ', '')\<close>: every space is dropped.\<close>

definition replace_spaces :: "string \<Rightarrow> string" where
  "replace_spaces s = filter (\<lambda>ch. ch \<noteq> CHR '' '') s"

subsection \<open>The data of the event, of the provider and of the handler\<close>

record resource_properties =
  Account :: string
  Region :: string
  Vpc_Tags :: string
  CIDR :: string
  Transit_Gateway_Id :: string

record event =
  RequestType :: string
  ResourceProperties :: resource_properties
  ResponseURL :: string
  StackId :: string
  RequestId :: string
  LogicalResourceId :: string

record lambda_context =
  log_stream_name :: string

record tag =
  Key :: string
  Value :: string

text \<open>A VPC of a \<open>describe_vpcs\<close> answer; the key \<open>Tags\<close> may be absent.\<close>

record vpc =
  VpcId :: string
  Tags :: "tag list option"

record subnet =
  SubnetId :: string
  AvailabilityZone :: string

text \<open>A route of a route table; the key \<open>DestinationCidrBlock\<close> may be absent.\<close>

record route =
  DestinationCidrBlock :: "string option"

record route_table =
  RouteTableId :: string
  Routes :: "route list"

record role =
  RoleName :: string

text \<open>
  The metadata record of one matched VPC. \<open>get_subnets\<close> and
  \<open>get_default_route_table\<close> return \<open>None\<close> after a failure, so both lists are
  optional.
\<close>

record metadata =
  Vpc :: string
  Subnet :: "string list option"
  Route_Tables :: "string list option"

record response_body =
  Status :: string
  Reason :: string
  PhysicalResourceId :: string
  body_StackId :: string
  body_RequestId :: string
  body_LogicalResourceId :: string
  NoEcho :: bool
  Data :: "(string \<times> string) list"

subsection \<open>Calls, responses and the run state\<close>

text \<open>
  One constructor per call the script issues, with the arguments it passes.
  \<open>DescribeSubnetsOfVpc\<close> and \<open>DescribeRouteTablesOfVpc\<close> carry the values of the
  \<open>vpc-id\<close> and \<open>tag:tgw-attach\<close> filters (the route-table filter
  \<open>association.main = false\<close> is constant); \<open>DescribeRouteTables\<close> carries
  \<open>RouteTableIds\<close>, which is \<open>None\<close> when the metadata holds no list;
  \<open>DeleteRoute\<close> carries whatever is passed as \<open>DestinationCidrBlock\<close> (the whole
  list at line 94, one block at line 244). \<open>Sleep\<close> is \<open>time.sleep\<close>: it is
  recorded in the trace and never sent to the provider.
\<close>

datatype call =
    ListRoles
  | CreateServiceLinkedRole string
  | DescribeVpcs
  | DescribeSubnetsOfVpc string string
  | DescribeSubnetById string
  | DescribeRouteTablesOfVpc string string
  | DescribeRouteTables "string list option"
  | DeleteRoute pyval string
  | CreateRoute string string string
  | CreateTransitGatewayVpcAttachment string string "string list"
  | HttpPut string response_body
  | Sleep nat

datatype response =
    Roles "role list"
  | Vpcs "vpc list"
  | Subnets "subnet list"
  | RouteTables "route_table list"
  | Ack

type_synonym 'w provider = "'w \<Rightarrow> call \<Rightarrow> (py_error + response) \<times> 'w"

record 'w run =
  world :: 'w
  trace :: "call list"

definition invoke :: "'w provider \<Rightarrow> call \<Rightarrow> 'w run \<Rightarrow> (py_error + response) \<times> 'w run" where
  "invoke p c s =
     (case p (world s) c of
        (r, w') \<Rightarrow> (r, \<lparr>world = w', trace = trace s @ [c]\<rparr>))"

text \<open>Reading a key of a response; an answer of another shape has no such key.\<close>

fun get_Roles :: "response \<Rightarrow> py_error + role list" where
  "get_Roles (Roles rs) = Inr rs"
| "get_Roles (Vpcs vs) = Inl KeyError"
| "get_Roles (Subnets ss) = Inl KeyError"
| "get_Roles (RouteTables ts) = Inl KeyError"
| "get_Roles Ack = Inl KeyError"

fun get_Vpcs :: "response \<Rightarrow> py_error + vpc list" where
  "get_Vpcs (Vpcs vs) = Inr vs"
| "get_Vpcs (Roles rs) = Inl KeyError"
| "get_Vpcs (Subnets ss) = Inl KeyError"
| "get_Vpcs (RouteTables ts) = Inl KeyError"
| "get_Vpcs Ack = Inl KeyError"

fun get_Subnets :: "response \<Rightarrow> py_error + subnet list" where
  "get_Subnets (Subnets ss) = Inr ss"
| "get_Subnets (Roles rs) = Inl KeyError"
| "get_Subnets (Vpcs vs) = Inl KeyError"
| "get_Subnets (RouteTables ts) = Inl KeyError"
| "get_Subnets Ack = Inl KeyError"

fun get_RouteTables :: "response \<Rightarrow> py_error + route_table list" where
  "get_RouteTables (RouteTables ts) = Inr ts"
| "get_RouteTables (Roles rs) = Inl KeyError"
| "get_RouteTables (Vpcs vs) = Inl KeyError"
| "get_RouteTables (Subnets ss) = Inl KeyError"
| "get_RouteTables Ack = Inl KeyError"

text \<open>A call whose answer must carry a given key: the exception of either step is raised.\<close>

definition fetch ::
  "'w provider \<Rightarrow> call \<Rightarrow> (response \<Rightarrow> py_error + 'a) \<Rightarrow> 'w run \<Rightarrow> (py_error + 'a) \<times> 'w run" where
  "fetch p c key s =
     (case invoke p c s of
        (Inl e, s') \<Rightarrow> (Inl e, s')
      | (Inr r, s') \<Rightarrow> (key r, s'))"

subsection \<open>\<open>send\<close> (lines 297-328)\<close>

text \<open>
  The body is built from the event and the context; \<open>physicalResourceId\<close> is never
  passed, so it is the log stream's name, and \<open>noEcho\<close> is \<open>False\<close>. The PUT runs
  inside \<open>try\<close>: whatever it raises is printed and dropped, so \<open>send\<close> always
  returns. The headers (an empty content type and the length of the serialised body) are
  not part of the model.
\<close>

definition responseBody :: "event \<Rightarrow> lambda_context \<Rightarrow> string \<Rightarrow> (string \<times> string) list \<Rightarrow> response_body" where
  "responseBody ev ctx responseStatus response_data =
     \<lparr>Status = responseStatus,
      Reason = ''See the details in CloudWatch Log Stream: '' @ log_stream_name ctx,
      PhysicalResourceId = log_stream_name ctx,
      body_StackId = StackId ev,
      body_RequestId = RequestId ev,
      body_LogicalResourceId = LogicalResourceId ev,
      NoEcho = False,
      Data = response_data\<rparr>"

definition send ::
  "'w provider \<Rightarrow> event \<Rightarrow> lambda_context \<Rightarrow> string \<Rightarrow> (string \<times> string) list \<Rightarrow> 'w run \<Rightarrow> 'w run" where
  "send p ev ctx responseStatus response_data s =
     snd (invoke p (HttpPut (ResponseURL ev) (responseBody ev ctx responseStatus response_data)) s)"

subsection \<open>\<open>create_service_link_role\<close> (lines 255-271)\<close>

fun role_loop :: "role list \<Rightarrow> bool \<Rightarrow> bool" where
  "role_loop [] service_role_exists = service_role_exists"
| "role_loop (r # rs) service_role_exists =
     role_loop rs
       (if RoleName r = ''AWSServiceRoleForVPCTransitGateway'' then True
        else service_role_exists)"

text \<open>No \<open>try\<close> here: an exception of either call leaves the function.\<close>

definition create_service_link_role :: "'w provider \<Rightarrow> 'w run \<Rightarrow> (py_error + unit) \<times> 'w run" where
  "create_service_link_role p s =
     (case fetch p ListRoles get_Roles s of
        (Inl e, s1) \<Rightarrow> (Inl e, s1)
      | (Inr rs, s1) \<Rightarrow>
          (if \<not> role_loop rs False then
             (case invoke p (CreateServiceLinkedRole ''transitgateway.amazonaws.com'') s1 of
                (Inl e, s2) \<Rightarrow> (Inl e, s2)
              | (Inr create_role, s2) \<Rightarrow> (Inr (), s2))
           else (Inr (), s1)))"

subsection \<open>\<open>get_subnets\<close> (lines 159-205)\<close>

text \<open>
  \<open>az_subnet_mapping\<close> is a list of one-key dictionaries \<open>{zone: subnet id}\<close>, here
  a list of pairs; \<open>zone in az\<close> asks whether the zone is the key of the dictionary.
\<close>

definition add_az :: "(string \<times> string) list \<Rightarrow> subnet \<Rightarrow> (string \<times> string) list" where
  "add_az az_subnet_mapping sub =
     (if \<not> list_ex (\<lambda>az. fst az = AvailabilityZone sub) az_subnet_mapping
      then az_subnet_mapping @ [(AvailabilityZone sub, SubnetId sub)]
      else az_subnet_mapping)"

text \<open>Lines 189-193: the subnets of one answer.\<close>

fun az_loop :: "subnet list \<Rightarrow> (string \<times> string) list \<Rightarrow> (string \<times> string) list" where
  "az_loop [] az_subnet_mapping = az_subnet_mapping"
| "az_loop (sub # subs) az_subnet_mapping = az_loop subs (add_az az_subnet_mapping sub)"

text \<open>Lines 179-193: one describe call per listed subnet id.\<close>

fun subnet_loop ::
  "'w provider \<Rightarrow> string list \<Rightarrow> (string \<times> string) list \<Rightarrow> 'w run
     \<Rightarrow> (py_error + (string \<times> string) list) \<times> 'w run" where
  "subnet_loop p [] az_subnet_mapping s = (Inr az_subnet_mapping, s)"
| "subnet_loop p (subnet # subnet_list) az_subnet_mapping s =
     (case fetch p (DescribeSubnetById subnet) get_Subnets s of
        (Inl e, s') \<Rightarrow> (Inl e, s')
      | (Inr subs, s') \<Rightarrow> subnet_loop p subnet_list (az_loop subs az_subnet_mapping) s')"

text \<open>Lines 160-197: the \<open>try\<close> block, whose result is the mapping.\<close>

definition get_az_subnet_mapping ::
  "'w provider \<Rightarrow> string \<Rightarrow> string \<Rightarrow> 'w run \<Rightarrow> (py_error + (string \<times> string) list) \<times> 'w run" where
  "get_az_subnet_mapping p returned_vpc vpc_tag s =
     (case fetch p (DescribeSubnetsOfVpc returned_vpc vpc_tag) get_Subnets s of
        (Inl e, s') \<Rightarrow> (Inl e, s')
      | (Inr entries, s') \<Rightarrow> subnet_loop p (map SubnetId entries) [] s')"

definition get_subnets ::
  "'w provider \<Rightarrow> string \<Rightarrow> string \<Rightarrow> 'w run \<Rightarrow> string list option \<times> 'w run" where
  "get_subnets p returned_vpc vpc_tag s =
     (case get_az_subnet_mapping p returned_vpc vpc_tag s of
        (Inl e, s') \<Rightarrow> (None, s')
      | (Inr az_subnet_mapping, s') \<Rightarrow> (Some (map snd az_subnet_mapping), s'))"

subsection \<open>\<open>get_default_route_table\<close> (lines 208-252)\<close>

text \<open>
  Lines 241-246. The test compares the route's destination, a string, with \<open>cidr\<close>,
  the whole list, not with \<open>block\<close>; the call under it passes \<open>block\<close>.
\<close>

fun delete_block_loop ::
  "'w provider \<Rightarrow> string \<Rightarrow> string list \<Rightarrow> string \<Rightarrow> string list \<Rightarrow> 'w run
     \<Rightarrow> (py_error + unit) \<times> 'w run" where
  "delete_block_loop p dest cidr route_table [] s = (Inr (), s)"
| "delete_block_loop p dest cidr route_table (block # blocks) s =
     (if py_eq (PyStr dest) (PyList cidr) then
        (case invoke p (DeleteRoute (PyStr block) route_table) s of
           (Inl e, s') \<Rightarrow> (Inl e, s')
         | (Inr r, s') \<Rightarrow> delete_block_loop p dest cidr route_table blocks s')
      else delete_block_loop p dest cidr route_table blocks s)"

text \<open>Lines 239-246: the routes of the first table of the answer.\<close>

fun route_loop ::
  "'w provider \<Rightarrow> string list \<Rightarrow> string \<Rightarrow> route list \<Rightarrow> 'w run \<Rightarrow> (py_error + unit) \<times> 'w run" where
  "route_loop p cidr route_table [] s = (Inr (), s)"
| "route_loop p cidr route_table (route # routes) s =
     (case DestinationCidrBlock route of
        None \<Rightarrow> route_loop p cidr route_table routes s
      | Some dest \<Rightarrow>
          (case delete_block_loop p dest cidr route_table cidr s of
             (Inl e, s') \<Rightarrow> (Inl e, s')
           | (Inr u, s') \<Rightarrow> route_loop p cidr route_table routes s'))"

text \<open>
  Lines 231-246: one describe call per route-table id; \<open>describe_routes[0]\<close> raises
  \<open>IndexError\<close> on an empty answer.
\<close>

fun route_table_loop ::
  "'w provider \<Rightarrow> string list \<Rightarrow> string list \<Rightarrow> 'w run \<Rightarrow> (py_error + unit) \<times> 'w run" where
  "route_table_loop p cidr [] s = (Inr (), s)"
| "route_table_loop p cidr (route_table # route_table_ids) s =
     (case fetch p (DescribeRouteTables (Some [route_table])) get_RouteTables s of
        (Inl e, s') \<Rightarrow> (Inl e, s')
      | (Inr describe_routes, s') \<Rightarrow>
          (case describe_routes of
             [] \<Rightarrow> (Inl IndexError, s')
           | rt0 # others \<Rightarrow>
               (case route_loop p cidr route_table (Routes rt0) s' of
                  (Inl e, s'') \<Rightarrow> (Inl e, s'')
                | (Inr u, s'') \<Rightarrow> route_table_loop p cidr route_table_ids s'')))"

definition get_default_route_table ::
  "'w provider \<Rightarrow> string \<Rightarrow> string list \<Rightarrow> string \<Rightarrow> 'w run \<Rightarrow> string list option \<times> 'w run" where
  "get_default_route_table p returned_vpc cidr vpc_tag s =
     (case fetch p (DescribeRouteTablesOfVpc returned_vpc vpc_tag) get_RouteTables s of
        (Inl e, s') \<Rightarrow> (None, s')
      | (Inr tables, s') \<Rightarrow>
          (case route_table_loop p cidr (map RouteTableId tables) s' of
             (Inl e, s'') \<Rightarrow> (None, s'')
           | (Inr u, s'') \<Rightarrow> (Some (map RouteTableId tables), s'')))"

subsection \<open>\<open>get_vpc_metadata\<close> (lines 130-156)\<close>

text \<open>Lines 131-132: the tag values the VPCs are matched against.\<close>

definition vpc_tags_list :: "string \<Rightarrow> string list" where
  "vpc_tags_list vpc_tags = split_on CHR '','' (replace_spaces vpc_tags)"

text \<open>
  Lines 141-150: every tag of the VPC whose value equals \<open>tag\<close> appends a record.
  Neither \<open>get_subnets\<close> nor \<open>get_default_route_table\<close> raises.
\<close>

fun tag_value_loop ::
  "'w provider \<Rightarrow> string list \<Rightarrow> string \<Rightarrow> string \<Rightarrow> tag list \<Rightarrow> metadata list \<Rightarrow> 'w run
     \<Rightarrow> metadata list \<times> 'w run" where
  "tag_value_loop p cidr t returned_vpc [] returned_metadata s = (returned_metadata, s)"
| "tag_value_loop p cidr t returned_vpc (tag_value # tag_values) returned_metadata s =
     (if Value tag_value = t then
        (case get_subnets p returned_vpc ''True'' s of
           (subnets, s1) \<Rightarrow>
             (case get_default_route_table p returned_vpc cidr ''True'' s1 of
                (route_tables, s2) \<Rightarrow>
                  tag_value_loop p cidr t returned_vpc tag_values
                    (returned_metadata @
                       [\<lparr>Vpc = returned_vpc, Subnet = subnets, Route_Tables = route_tables\<rparr>])
                    s2))
      else tag_value_loop p cidr t returned_vpc tag_values returned_metadata s)"

text \<open>Lines 139-150: the VPCs of one answer.\<close>

fun vpc_loop ::
  "'w provider \<Rightarrow> string list \<Rightarrow> string \<Rightarrow> vpc list \<Rightarrow> metadata list \<Rightarrow> 'w run
     \<Rightarrow> metadata list \<times> 'w run" where
  "vpc_loop p cidr t [] returned_metadata s = (returned_metadata, s)"
| "vpc_loop p cidr t (v # vs) returned_metadata s =
     (case Tags v of
        None \<Rightarrow> vpc_loop p cidr t vs returned_metadata s
      | Some tag_values \<Rightarrow>
          (case tag_value_loop p cidr t (VpcId v) tag_values returned_metadata s of
             (returned_metadata', s') \<Rightarrow> vpc_loop p cidr t vs returned_metadata' s'))"

text \<open>
  Lines 136-156: one \<open>describe_vpcs\<close> call per tag of the list; an exception inside
  the \<open>try\<close> returns \<open>None\<close> from the function.
\<close>

fun tag_loop ::
  "'w provider \<Rightarrow> string list \<Rightarrow> string list \<Rightarrow> metadata list \<Rightarrow> 'w run
     \<Rightarrow> metadata list option \<times> 'w run" where
  "tag_loop p cidr [] returned_metadata s = (Some returned_metadata, s)"
| "tag_loop p cidr (t # ts) returned_metadata s =
     (case fetch p DescribeVpcs get_Vpcs s of
        (Inl e, s') \<Rightarrow> (None, s')
      | (Inr vs, s') \<Rightarrow>
          (case vpc_loop p cidr t vs returned_metadata s' of
             (returned_metadata', s'') \<Rightarrow> tag_loop p cidr ts returned_metadata' s''))"

definition get_vpc_metadata ::
  "'w provider \<Rightarrow> string \<Rightarrow> string \<Rightarrow> string \<Rightarrow> string list \<Rightarrow> 'w run
     \<Rightarrow> metadata list option \<times> 'w run" where
  "get_vpc_metadata p account region vpc_tags cidr s =
     tag_loop p cidr (vpc_tags_list vpc_tags) [] s"

subsection \<open>\<open>create_transit_gateways\<close> (lines 111-127)\<close>

text \<open>
  Lines 112-125. \<open>if entry['Subnet']\<close> is false for \<open>None\<close> and for the empty
  list. The result says whether the loop ran to its end (\<open>True\<close>) or the
  \<open>except\<close> branch returned from the function (\<open>False\<close>).
\<close>

fun attach_loop :: "'w provider \<Rightarrow> string \<Rightarrow> metadata list \<Rightarrow> 'w run \<Rightarrow> bool \<times> 'w run" where
  "attach_loop p tgw_id [] s = (True, s)"
| "attach_loop p tgw_id (entry # entries) s =
     (case Subnet entry of
        None \<Rightarrow> attach_loop p tgw_id entries s
      | Some [] \<Rightarrow> attach_loop p tgw_id entries s
      | Some (x # xs) \<Rightarrow>
          (case invoke p (CreateTransitGatewayVpcAttachment tgw_id (Vpc entry) (x # xs)) s of
             (Inl e, s') \<Rightarrow> (False, s')
           | (Inr response, s') \<Rightarrow> attach_loop p tgw_id entries s'))"

text \<open>
  \<open>for entry in None\<close> raises \<open>TypeError\<close>, outside every \<open>try\<close>. The sleep of
  line 127 follows the loop only.
\<close>

definition create_transit_gateways ::
  "'w provider \<Rightarrow> metadata list option \<Rightarrow> string \<Rightarrow> 'w run \<Rightarrow> (py_error + unit) \<times> 'w run" where
  "create_transit_gateways p vpc_metadata tgw_id s =
     (case vpc_metadata of
        None \<Rightarrow> (Inl TypeError, s)
      | Some entries \<Rightarrow>
          (case attach_loop p tgw_id entries s of
             (False, s') \<Rightarrow> (Inr (), s')
           | (True, s') \<Rightarrow> (Inr (), s'\<lparr>trace := trace s' @ [Sleep 90]\<rparr>)))"

subsection \<open>\<open>create_vpc_route_to_tgw\<close> (lines 77-108)\<close>

text \<open>
  Lines 90-96. The test compares the destination with the list \<open>cidr\<close>, and the call
  under it passes the list as \<open>DestinationCidrBlock\<close>.
\<close>

fun delete_route_loop ::
  "'w provider \<Rightarrow> string list \<Rightarrow> string \<Rightarrow> route list \<Rightarrow> 'w run \<Rightarrow> (py_error + unit) \<times> 'w run" where
  "delete_route_loop p cidr rt_id [] s = (Inr (), s)"
| "delete_route_loop p cidr rt_id (route # routes) s =
     (case DestinationCidrBlock route of
        None \<Rightarrow> delete_route_loop p cidr rt_id routes s
      | Some dest \<Rightarrow>
          (if py_eq (PyStr dest) (PyList cidr) then
             (case invoke p (DeleteRoute (PyList cidr) rt_id) s of
                (Inl e, s') \<Rightarrow> (Inl e, s')
              | (Inr r, s') \<Rightarrow> delete_route_loop p cidr rt_id routes s')
           else delete_route_loop p cidr rt_id routes s))"

text \<open>Lines 97-104: one \<open>create_route\<close> per block.\<close>

fun create_route_loop ::
  "'w provider \<Rightarrow> string \<Rightarrow> string \<Rightarrow> string list \<Rightarrow> 'w run \<Rightarrow> (py_error + unit) \<times> 'w run" where
  "create_route_loop p tgw_id rt_id [] s = (Inr (), s)"
| "create_route_loop p tgw_id rt_id (block # blocks) s =
     (case invoke p (CreateRoute rt_id block tgw_id) s of
        (Inl e, s') \<Rightarrow> (Inl e, s')
      | (Inr r, s') \<Rightarrow> create_route_loop p tgw_id rt_id blocks s')"

text \<open>Lines 89-104: the route tables of the answer.\<close>

fun rt_loop ::
  "'w provider \<Rightarrow> string \<Rightarrow> string list \<Rightarrow> route_table list \<Rightarrow> 'w run
     \<Rightarrow> (py_error + unit) \<times> 'w run" where
  "rt_loop p tgw_id cidr [] s = (Inr (), s)"
| "rt_loop p tgw_id cidr (rt # rts) s =
     (case delete_route_loop p cidr (RouteTableId rt) (Routes rt) s of
        (Inl e, s') \<Rightarrow> (Inl e, s')
      | (Inr u, s') \<Rightarrow>
          (case create_route_loop p tgw_id (RouteTableId rt) cidr s' of
             (Inl e, s'') \<Rightarrow> (Inl e, s'')
           | (Inr u', s'') \<Rightarrow> rt_loop p tgw_id cidr rts s''))"

text \<open>Lines 83-104: the body of the \<open>try\<close> for one entry.\<close>

definition entry_routes ::
  "'w provider \<Rightarrow> string \<Rightarrow> string list \<Rightarrow> metadata \<Rightarrow> 'w run \<Rightarrow> (py_error + unit) \<times> 'w run" where
  "entry_routes p tgw_id cidr entry s =
     (case fetch p (DescribeRouteTables (Route_Tables entry)) get_RouteTables s of
        (Inl e, s') \<Rightarrow> (Inl e, s')
      | (Inr describe_routes, s') \<Rightarrow> rt_loop p tgw_id cidr describe_routes s')"

text \<open>
  Lines 80-108: the \<open>except\<close> branch returns from the function. As in
  \<open>attach_loop\<close>, the result says whether the loop ran to its end.
\<close>

fun entry_loop ::
  "'w provider \<Rightarrow> string \<Rightarrow> string list \<Rightarrow> metadata list \<Rightarrow> 'w run \<Rightarrow> bool \<times> 'w run" where
  "entry_loop p tgw_id cidr [] s = (True, s)"
| "entry_loop p tgw_id cidr (entry # entries) s =
     (case Subnet entry of
        None \<Rightarrow> entry_loop p tgw_id cidr entries s
      | Some [] \<Rightarrow> entry_loop p tgw_id cidr entries s
      | Some (x # xs) \<Rightarrow>
          (case entry_routes p tgw_id cidr entry s of
             (Inl e, s') \<Rightarrow> (False, s')
           | (Inr u, s') \<Rightarrow> entry_loop p tgw_id cidr entries s'))"

text \<open>Either way the function returns \<open>None\<close>; \<open>for entry in None\<close> raises.\<close>

definition create_vpc_route_to_tgw ::
  "'w provider \<Rightarrow> metadata list option \<Rightarrow> string \<Rightarrow> string list \<Rightarrow> 'w run
     \<Rightarrow> (py_error + unit) \<times> 'w run" where
  "create_vpc_route_to_tgw p vpc_metadata tgw_id cidr s =
     (case vpc_metadata of
        None \<Rightarrow> (Inl TypeError, s)
      | Some entries \<Rightarrow> (Inr (), snd (entry_loop p tgw_id cidr entries s)))"

subsection \<open>\<open>lambda_handler\<close> (lines 41-74)\<close>

text \<open>
  Lines 57-65: the branch of \<open>Update\<close> and \<open>Create\<close>. Nothing here is inside a
  \<open>try\<close>: an exception of a step leaves the handler before \<open>send\<close>.
\<close>

definition create_or_update ::
  "'w provider \<Rightarrow> event \<Rightarrow> lambda_context \<Rightarrow> 'w run \<Rightarrow> (py_error + unit) \<times> 'w run" where
  "create_or_update p ev ctx s =
     (let account = Account (ResourceProperties ev);
          region = Region (ResourceProperties ev);
          vpc_tags = Vpc_Tags (ResourceProperties ev);
          cidr = split_on CHR '','' (CIDR (ResourceProperties ev));
          tgw_id = Transit_Gateway_Id (ResourceProperties ev)
      in case create_service_link_role p s of
           (Inl e, s1) \<Rightarrow> (Inl e, s1)
         | (Inr u, s1) \<Rightarrow>
             (case get_vpc_metadata p account region vpc_tags cidr s1 of
                (vpc_metadata, s2) \<Rightarrow>
                  (case create_transit_gateways p vpc_metadata tgw_id s2 of
                     (Inl e, s3) \<Rightarrow> (Inl e, s3)
                   | (Inr u', s3) \<Rightarrow>
                       (case create_vpc_route_to_tgw p vpc_metadata tgw_id cidr s3 of
                          (Inl e, s4) \<Rightarrow> (Inl e, s4)
                        | (Inr u'', s4) \<Rightarrow> (Inr (), send p ev ctx ''SUCCESS'' [] s4)))))"

text \<open>
  The first \<open>if\<close> has an \<open>else\<close> (lines 67-69) that every other request type
  takes, \<open>Delete\<close> too; the second \<open>if\<close> (lines 71-74) is a statement of its own
  after it.
\<close>

definition lambda_handler ::
  "'w provider \<Rightarrow> event \<Rightarrow> lambda_context \<Rightarrow> 'w run \<Rightarrow> (py_error + unit) \<times> 'w run" where
  "lambda_handler p ev ctx s =
     (case (if RequestType ev \<in> set [''Update'', ''Create'']
            then create_or_update p ev ctx s
            else (Inr (), send p ev ctx ''FAILED'' [] s)) of
        (Inl e, s') \<Rightarrow> (Inl e, s')
      | (Inr u, s') \<Rightarrow>
          (if RequestType ev \<in> set [''Delete'']
           then (Inr (), send p ev ctx ''SUCCESS'' [] s')
           else (Inr (), s')))"

subsection \<open>What a run issued, and what the claims speak of\<close>

text \<open>The calls a step added to the trace: those of the state after it, past the ones before.\<close>

definition issued :: "'w run \<Rightarrow> 'w run \<Rightarrow> call list" where
  "issued s s' = drop (length (trace s)) (trace s')"

fun is_DeleteRoute :: "call \<Rightarrow> bool" where
  "is_DeleteRoute (DeleteRoute d rt) = True"
| "is_DeleteRoute c = False"

fun is_HttpPut :: "call \<Rightarrow> bool" where
  "is_HttpPut (HttpPut url body) = True"
| "is_HttpPut c = False"

text \<open>The calls issued for one matched VPC: the descriptions of its subnets and route tables.\<close>

fun per_vpc_call :: "call \<Rightarrow> bool" where
  "per_vpc_call (DescribeSubnetsOfVpc v t) = True"
| "per_vpc_call (DescribeSubnetById i) = True"
| "per_vpc_call (DescribeRouteTablesOfVpc v t) = True"
| "per_vpc_call (DescribeRouteTables ids) = True"
| "per_vpc_call c = False"





text \<open>How many tags of a VPC carry the value \<open>t\<close>; a VPC without tags has none.\<close>

fun matching_tags :: "string \<Rightarrow> vpc \<Rightarrow> nat" where
  "matching_tags t v =
     (case Tags v of None \<Rightarrow> 0 | Some tag_values \<Rightarrow> length (filter (\<lambda>tv. Value tv = t) tag_values))"

text \<open>
  A tag is unspaced when its value has no space. To say that the other tags play no part,
  a provider is compared with the one that answers the same but for the spaced tags,
  dropped from every VPC of a \<open>describe_vpcs\<close> answer.
\<close>

definition unspaced :: "tag \<Rightarrow> bool" where
  "unspaced tv = (CHR '' '' \<notin> set (Value tv))"

definition drop_spaced_tags :: "vpc \<Rightarrow> vpc" where
  "drop_spaced_tags v = v\<lparr>Tags := map_option (filter unspaced) (Tags v)\<rparr>"

fun without_spaced_tags :: "response \<Rightarrow> response" where
  "without_spaced_tags (Vpcs vs) = Vpcs (map drop_spaced_tags vs)"
| "without_spaced_tags r = r"

definition unspaced_provider :: "'w provider \<Rightarrow> 'w provider" where
  "unspaced_provider p w c =
     (case p w c of
        (Inl e, w') \<Rightarrow> (Inl e, w')
      | (Inr r, w') \<Rightarrow> (Inr (without_spaced_tags r), w'))"

text \<open>How many unspaced tags of a VPC carry the value \<open>t\<close>.\<close>

definition unspaced_matching_tags :: "string \<Rightarrow> vpc \<Rightarrow> nat" where
  "unspaced_matching_tags t v =
     (case Tags v of
        None \<Rightarrow> 0
      | Some tag_values \<Rightarrow> length (filter (\<lambda>tv. Value tv = t \<and> unspaced tv) tag_values))"

subsection \<open>Example clouds\<close>

text \<open>
  A small provider to run the handler on: a cloud lists its roles, VPCs, tagged subnets
  and tagged route tables (each with the id of its VPC), and the calls that fail. Its
  answers do not depend on what was called before.
\<close>

record cloud =
  cloud_roles :: "role list"
  cloud_vpcs :: "vpc list"
  cloud_subnets :: "(string \<times> subnet) list"
  cloud_route_tables :: "(string \<times> route_table) list"
  cloud_failing :: "call list"

fun answer :: "cloud \<Rightarrow> call \<Rightarrow> response" where
  "answer cl ListRoles = Roles (cloud_roles cl)"
| "answer cl DescribeVpcs = Vpcs (cloud_vpcs cl)"
| "answer cl (DescribeSubnetsOfVpc v t) =
     Subnets (map snd (filter (\<lambda>e. fst e = v) (cloud_subnets cl)))"
| "answer cl (DescribeSubnetById i) =
     Subnets (filter (\<lambda>x. SubnetId x = i) (map snd (cloud_subnets cl)))"
| "answer cl (DescribeRouteTablesOfVpc v t) =
     RouteTables (map snd (filter (\<lambda>e. fst e = v) (cloud_route_tables cl)))"
| "answer cl (DescribeRouteTables None) = RouteTables (map snd (cloud_route_tables cl))"
| "answer cl (DescribeRouteTables (Some ids)) =
     RouteTables
       (concat (map (\<lambda>i. filter (\<lambda>x. RouteTableId x = i) (map snd (cloud_route_tables cl))) ids))"
| "answer cl c = Ack"

definition cloud_provider :: "cloud \<Rightarrow> unit provider" where
  "cloud_provider cl w c =
     (if c \<in> set (cloud_failing cl) then (Inl ClientError, w) else (Inr (answer cl c), w))"

text \<open>A provider with a state: the roles of the account; creating the role adds it.\<close>

fun iam_provider :: "role list provider" where
  "iam_provider roles ListRoles = (Inr (Roles roles), roles)"
| "iam_provider roles (CreateServiceLinkedRole service) =
     (Inr Ack, roles @ [\<lparr>RoleName = ''AWSServiceRoleForVPCTransitGateway''\<rparr>])"
| "iam_provider roles c = (Inr Ack, roles)"

definition example_event :: "string \<Rightarrow> event" where
  "example_event request_type =
     \<lparr>RequestType = request_type,
      ResourceProperties =
        \<lparr>Account = ''111122223333'', Region = ''eu-west-1'', Vpc_Tags = ''prod, shared'',
         CIDR = ''10.0.0.0/16,192.168.1.0/24'', Transit_Gateway_Id = ''tgw-1''\<rparr>,
      ResponseURL = ''https://cfn.example/callback'',
      StackId = ''stack-1'',
      RequestId = ''req-1'',
      LogicalResourceId = ''Attach''\<rparr>"

definition example_context :: lambda_context where
  "example_context = \<lparr>log_stream_name = ''2021/03/25/stream''\<rparr>"

definition start :: "'w \<Rightarrow> 'w run" where
  "start w = \<lparr>world = w, trace = []\<rparr>"

text \<open>
  A cloud with the service role, one VPC \<open>vpc-1\<close> carrying two tags of value
  \<open>prod\<close>, two tagged subnets in one zone and one in another, and one tagged route
  table.
\<close>

definition example_cloud :: cloud where
  "example_cloud =
     \<lparr>cloud_roles = [\<lparr>RoleName = ''AWSServiceRoleForVPCTransitGateway''\<rparr>],
      cloud_vpcs =
        [\<lparr>VpcId = ''vpc-1'',
          Tags = Some [\<lparr>Key = ''Name'', Value = ''prod''\<rparr>, \<lparr>Key = ''Env'', Value = ''prod''\<rparr>]\<rparr>],
      cloud_subnets =
        [(''vpc-1'', \<lparr>SubnetId = ''subnet-a'', AvailabilityZone = ''eu-west-1a''\<rparr>),
         (''vpc-1'', \<lparr>SubnetId = ''subnet-b'', AvailabilityZone = ''eu-west-1a''\<rparr>),
         (''vpc-1'', \<lparr>SubnetId = ''subnet-c'', AvailabilityZone = ''eu-west-1b''\<rparr>)],
      cloud_route_tables =
        [(''vpc-1'',
          \<lparr>RouteTableId = ''rtb-1'',
           Routes = [\<lparr>DestinationCidrBlock = Some ''10.0.0.0/16''\<rparr>,
                     \<lparr>DestinationCidrBlock = None\<rparr>]\<rparr>)],
      cloud_failing = []\<rparr>"

text \<open>
  Two metadata entries, and a cloud where the attachment of the first VPC and the
  description of its route table fail.
\<close>

definition entry_1 :: metadata where
  "entry_1 = \<lparr>Vpc = ''vpc-1'', Subnet = Some [''subnet-a''], Route_Tables = Some [''rtb-1'']\<rparr>"

definition entry_2 :: metadata where
  "entry_2 = \<lparr>Vpc = ''vpc-2'', Subnet = Some [''subnet-z''], Route_Tables = Some [''rtb-2'']\<rparr>"

definition failing_cloud :: cloud where
  "failing_cloud =
     example_cloud\<lparr>cloud_failing :=
       [CreateTransitGatewayVpcAttachment ''tgw-1'' ''vpc-1'' [''subnet-a''],
        DescribeRouteTables (Some [''rtb-1''])]\<rparr>"

text \<open>
  A third entry, a cloud that refuses the attachment of \<open>vpc-1\<close> only, and a cloud
  that refuses one route of \<open>rtb-1\<close> only.
\<close>

definition entry_3 :: metadata where
  "entry_3 = \<lparr>Vpc = ''vpc-3'', Subnet = Some [''subnet-y''], Route_Tables = Some [''rtb-3'']\<rparr>"

definition attach_failing_cloud :: cloud where
  "attach_failing_cloud =
     example_cloud\<lparr>cloud_failing :=
       [CreateTransitGatewayVpcAttachment ''tgw-1'' ''vpc-1'' [''subnet-a'']]\<rparr>"

definition route_failing_cloud :: cloud where
  "route_failing_cloud =
     example_cloud\<lparr>cloud_failing := [CreateRoute ''rtb-1'' ''192.168.1.0/24'' ''tgw-1'']\<rparr>"

text \<open>
  A cloud with one VPC tagged \<open>my tag\<close> and another tagged \<open>mytag\<close>.
\<close>

definition spaced_cloud :: cloud where
  "spaced_cloud =
     example_cloud\<lparr>cloud_vpcs :=
       [\<lparr>VpcId = ''vpc-1'', Tags = Some [\<lparr>Key = ''Name'', Value = ''my tag''\<rparr>]\<rparr>,
        \<lparr>VpcId = ''vpc-2'', Tags = Some [\<lparr>Key = ''Name'', Value = ''mytag''\<rparr>]\<rparr>]\<rparr>"

text \<open>The example cloud when \<open>describe_vpcs\<close> fails.\<close>

definition outage_cloud :: cloud where
  "outage_cloud = example_cloud\<lparr>cloud_failing := [DescribeVpcs]\<rparr>"


section \<open>Properties\<close>

subsection \<open>The trace of a call\<close>

lemma invoke_trace: "trace (snd (invoke p c s)) = trace s @ [c]"
  by (simp add: invoke_def split: prod.splits)

lemma invoke_eq: "invoke p c s = (r, s') \<Longrightarrow> trace s' = trace s @ [c]"
  using invoke_trace [of p c s] by simp

lemma fetch_trace: "trace (snd (fetch p c key s)) = trace s @ [c]"
  using invoke_trace [of p c s]
  by (cases "invoke p c s") (auto simp: fetch_def split: sum.splits)

lemma fetch_eq: "fetch p c key s = (r, s') \<Longrightarrow> trace s' = trace s @ [c]"
  using fetch_trace [of p c key s] by simp

lemma send_trace:
  "trace (send p ev ctx st d s) = trace s @ [HttpPut (ResponseURL ev) (responseBody ev ctx st d)]"
  by (simp add: send_def invoke_trace)

lemma issued_append: "trace s' = trace s @ cs \<Longrightarrow> issued s s' = cs"
  by (simp add: issued_def)

subsection \<open>The request types of \<open>lambda_handler\<close>\<close>

text \<open>
  C8. An event whose request type is none of \<open>Create\<close>, \<open>Update\<close> and
  \<open>Delete\<close> makes the handler return normally after one call only: the PUT, to the
  event's URL, of the body whose \<open>Status\<close> is \<open>FAILED\<close>. No role, discovery,
  attachment or route call is issued.
\<close>

theorem unknown_request_type_fails:
  assumes "RequestType ev \<noteq> ''Create''" and "RequestType ev \<noteq> ''Update''"
    and "RequestType ev \<noteq> ''Delete''"
  shows "fst (lambda_handler p ev ctx s) = Inr () \<and>
         issued s (snd (lambda_handler p ev ctx s)) =
           [HttpPut (ResponseURL ev)
              \<lparr>Status = ''FAILED'',
               Reason = ''See the details in CloudWatch Log Stream: '' @ log_stream_name ctx,
               PhysicalResourceId = log_stream_name ctx,
               body_StackId = StackId ev,
               body_RequestId = RequestId ev,
               body_LogicalResourceId = LogicalResourceId ev,
               NoEcho = False,
               Data = []\<rparr>]"
  using assms by (simp add: lambda_handler_def send_trace issued_append responseBody_def)

theorem unknown_request_type_fails_witness:
  "fst (lambda_handler (cloud_provider example_cloud) (example_event ''Replace'')
          example_context (start ())) = Inr () \<and>
   issued (start ())
     (snd (lambda_handler (cloud_provider example_cloud) (example_event ''Replace'')
             example_context (start ()))) =
     [HttpPut ''https://cfn.example/callback''
        \<lparr>Status = ''FAILED'',
         Reason = ''See the details in CloudWatch Log Stream: 2021/03/25/stream'',
         PhysicalResourceId = ''2021/03/25/stream'',
         body_StackId = ''stack-1'',
         body_RequestId = ''req-1'',
         body_LogicalResourceId = ''Attach'',
         NoEcho = False,
         Data = []\<rparr>]"
  using unknown_request_type_fails
    [of "example_event ''Replace''" "cloud_provider example_cloud" example_context "start ()"]
  by (simp add: example_event_def example_context_def)

text \<open>
  C1. What the handler does on a \<open>Delete\<close> event: \<open>Delete\<close> is not in the list
  of line 57, so the \<open>else\<close> of lines 67-69 sends \<open>FAILED\<close>; the \<open>if\<close> of
  lines 71-74 then sends \<open>SUCCESS\<close>. Two callbacks are issued, the first one
  \<open>FAILED\<close>, and no other call.
\<close>

theorem delete_sends_failed_first:
  assumes "RequestType ev = ''Delete''"
  shows "fst (lambda_handler p ev ctx s) = Inr () \<and>
         issued s (snd (lambda_handler p ev ctx s)) =
           [HttpPut (ResponseURL ev) (responseBody ev ctx ''FAILED'' []),
            HttpPut (ResponseURL ev) (responseBody ev ctx ''SUCCESS'' [])]"
  using assms by (simp add: lambda_handler_def send_trace issued_append)

theorem delete_sends_failed_first_witness:
  "map (\<lambda>c. case c of HttpPut url body \<Rightarrow> Status body | _ \<Rightarrow> ''other'')
     (issued (start ())
        (snd (lambda_handler (cloud_provider example_cloud) (example_event ''Delete'')
                example_context (start ()))))
   = [''FAILED'', ''SUCCESS'']"
  using delete_sends_failed_first
    [of "example_event ''Delete''" "cloud_provider example_cloud" example_context "start ()"]
  by (simp add: example_event_def responseBody_def)

subsection \<open>The service-linked role\<close>

lemma role_loop_iff:
  "role_loop rs b = (b \<or> ''AWSServiceRoleForVPCTransitGateway'' \<in> set (map RoleName rs))"
  by (induction rs arbitrary: b) auto

text \<open>
  C9. When \<open>list_roles\<close> answers with a list of roles, \<open>create_service_link_role\<close>
  issues the create call exactly when no listed role is named
  \<open>AWSServiceRoleForVPCTransitGateway\<close>; when the role is listed, the listing is the
  only call and the function returns without raising.
\<close>

theorem service_role_created_iff_absent:
  assumes "p (world s) ListRoles = (Inr (Roles rs), w1)"
  shows "(CreateServiceLinkedRole ''transitgateway.amazonaws.com'' \<in>
            set (issued s (snd (create_service_link_role p s)))) =
           (''AWSServiceRoleForVPCTransitGateway'' \<notin> set (map RoleName rs)) \<and>
         issued s (snd (create_service_link_role p s)) =
           (if ''AWSServiceRoleForVPCTransitGateway'' \<in> set (map RoleName rs)
            then [ListRoles]
            else [ListRoles, CreateServiceLinkedRole ''transitgateway.amazonaws.com'']) \<and>
         (''AWSServiceRoleForVPCTransitGateway'' \<in> set (map RoleName rs) \<longrightarrow>
            fst (create_service_link_role p s) = Inr ())"
proof -
  let ?s1 = "\<lparr>world = w1, trace = trace s @ [ListRoles]\<rparr>"
  have f: "fetch p ListRoles get_Roles s = (Inr rs, ?s1)"
    using assms by (simp add: fetch_def invoke_def)
  show ?thesis
  proof (cases "''AWSServiceRoleForVPCTransitGateway'' \<in> set (map RoleName rs)")
    case True
    then have "create_service_link_role p s = (Inr (), ?s1)"
      by (simp add: create_service_link_role_def f role_loop_iff)
    with True show ?thesis by (simp add: issued_append)
  next
    case False
    let ?c = "CreateServiceLinkedRole ''transitgateway.amazonaws.com''"
    have "trace (snd (create_service_link_role p s)) = trace (snd (invoke p ?c ?s1))"
      using False
      by (cases "invoke p ?c ?s1")
         (auto simp: create_service_link_role_def f role_loop_iff split: sum.splits)
    then have "trace (snd (create_service_link_role p s)) = trace s @ [ListRoles, ?c]"
      by (simp add: invoke_trace)
    with False show ?thesis by (simp add: issued_append)
  qed
qed

text \<open>
  Two runs in a row against a provider that adds the role when asked to: the first run
  creates it, the second lists the roles and does nothing else.
\<close>

theorem service_role_created_iff_absent_witness:
  "issued (start []) (snd (create_service_link_role iam_provider (start []))) =
     [ListRoles, CreateServiceLinkedRole ''transitgateway.amazonaws.com''] \<and>
   issued (snd (create_service_link_role iam_provider (start [])))
     (snd (create_service_link_role iam_provider
        (snd (create_service_link_role iam_provider (start []))))) = [ListRoles] \<and>
   fst (create_service_link_role iam_provider
        (snd (create_service_link_role iam_provider (start [])))) = Inr ()"
proof -
  let ?role = "\<lparr>RoleName = ''AWSServiceRoleForVPCTransitGateway''\<rparr>"
  let ?s1 = "snd (create_service_link_role iam_provider (start []))"
  have first: "iam_provider (world (start [])) ListRoles = (Inr (Roles []), [])"
    by (simp add: start_def)
  have w: "world ?s1 = [?role]"
    by (simp add: create_service_link_role_def fetch_def invoke_def start_def)
  have second: "iam_provider (world ?s1) ListRoles = (Inr (Roles [?role]), [?role])"
    by (simp add: w)
  show ?thesis
    using service_role_created_iff_absent [of iam_provider "start []" "[]" "[]"]
      service_role_created_iff_absent [of iam_provider ?s1 "[?role]" "[?role]"]
      first second
    by simp
qed

subsection \<open>The route deletion\<close>

text \<open>
  The three loops that hold the \<open>delete_route\<close> call change nothing: their test
  compares a string with a list.
\<close>

lemma delete_block_loop_noop: "delete_block_loop p dest cidr rt blocks s = (Inr (), s)"
  by (induction blocks) simp_all

lemma route_loop_noop: "route_loop p cidr rt routes s = (Inr (), s)"
  by (induction routes) (simp_all add: delete_block_loop_noop split: option.splits)

lemma delete_route_loop_noop: "delete_route_loop p cidr rt routes s = (Inr (), s)"
  by (induction routes) (simp_all split: option.splits)

text \<open>
  Calls of a kind \<open>P\<close> that a function never issues are as many after it as before.
\<close>

lemma route_table_loop_filter:
  assumes "\<And>ids. \<not> P (DescribeRouteTables ids)"
  shows "filter P (trace (snd (route_table_loop p cidr ids s))) = filter P (trace s)"
proof (induction ids arbitrary: s)
  case Nil
  then show ?case by simp
next
  case (Cons i ids)
  obtain r s' where f: "fetch p (DescribeRouteTables (Some [i])) get_RouteTables s = (r, s')"
    by (cases "fetch p (DescribeRouteTables (Some [i])) get_RouteTables s")
  then have t: "filter P (trace s') = filter P (trace s)"
    using fetch_eq [OF f] assms by simp
  show ?case
    using Cons.IH [of s'] t
    by (simp add: f route_loop_noop split: sum.splits list.splits)
qed

lemma get_default_route_table_filter:
  assumes "\<And>ids. \<not> P (DescribeRouteTables ids)"
    and "\<And>v t. \<not> P (DescribeRouteTablesOfVpc v t)"
  shows "filter P (trace (snd (get_default_route_table p v cidr t s))) = filter P (trace s)"
proof -
  obtain r s' where f: "fetch p (DescribeRouteTablesOfVpc v t) get_RouteTables s = (r, s')"
    by (cases "fetch p (DescribeRouteTablesOfVpc v t) get_RouteTables s")
  have t: "filter P (trace s') = filter P (trace s)"
    using fetch_eq [OF f] assms(2) by simp
  show ?thesis
  proof (cases r)
    case (Inl e)
    then show ?thesis by (simp add: get_default_route_table_def f t)
  next
    case (Inr tables)
    obtain r2 s2 where l: "route_table_loop p cidr (map RouteTableId tables) s' = (r2, s2)"
      by (cases "route_table_loop p cidr (map RouteTableId tables) s'")
    have "filter P (trace s2) = filter P (trace s')"
      using route_table_loop_filter [of P p cidr "map RouteTableId tables" s', OF assms(1)] l
      by simp
    then show ?thesis
      by (simp add: get_default_route_table_def f Inr l t split: sum.splits)
  qed
qed

lemma create_route_loop_filter:
  assumes "\<And>rt b g. \<not> P (CreateRoute rt b g)"
  shows "filter P (trace (snd (create_route_loop p tgw rt blocks s))) = filter P (trace s)"
proof (induction blocks arbitrary: s)
  case Nil
  then show ?case by simp
next
  case (Cons b blocks)
  obtain r s' where i: "invoke p (CreateRoute rt b tgw) s = (r, s')"
    by (cases "invoke p (CreateRoute rt b tgw) s")
  have "filter P (trace s') = filter P (trace s)"
    using invoke_eq [OF i] assms by simp
  then show ?case using Cons.IH [of s'] by (simp add: i split: sum.splits)
qed

lemma rt_loop_filter:
  assumes "\<And>rt b g. \<not> P (CreateRoute rt b g)"
  shows "filter P (trace (snd (rt_loop p tgw cidr rts s))) = filter P (trace s)"
proof (induction rts arbitrary: s)
  case Nil
  then show ?case by simp
next
  case (Cons rt rts)
  obtain r s' where c: "create_route_loop p tgw (RouteTableId rt) cidr s = (r, s')"
    by (cases "create_route_loop p tgw (RouteTableId rt) cidr s")
  have "filter P (trace s') = filter P (trace s)"
    using create_route_loop_filter [of P p tgw "RouteTableId rt" cidr s, OF assms] c by simp
  then show ?case
    using Cons.IH [of s'] by (simp add: delete_route_loop_noop c split: sum.splits)
qed

lemma entry_routes_filter:
  assumes "\<And>rt b g. \<not> P (CreateRoute rt b g)" and "\<And>ids. \<not> P (DescribeRouteTables ids)"
  shows "filter P (trace (snd (entry_routes p tgw cidr e s))) = filter P (trace s)"
proof -
  obtain r s' where f: "fetch p (DescribeRouteTables (Route_Tables e)) get_RouteTables s = (r, s')"
    by (cases "fetch p (DescribeRouteTables (Route_Tables e)) get_RouteTables s")
  have t: "filter P (trace s') = filter P (trace s)"
    using fetch_eq [OF f] assms(2) by simp
  show ?thesis
    using rt_loop_filter [of P p tgw cidr _ s', OF assms(1)] t
    by (simp add: entry_routes_def f split: sum.splits)
qed

lemma entry_loop_filter:
  assumes "\<And>rt b g. \<not> P (CreateRoute rt b g)" and "\<And>ids. \<not> P (DescribeRouteTables ids)"
  shows "filter P (trace (snd (entry_loop p tgw cidr es s))) = filter P (trace s)"
proof (induction es arbitrary: s)
  case Nil
  then show ?case by simp
next
  case (Cons e es)
  obtain r s' where c: "entry_routes p tgw cidr e s = (r, s')"
    by (cases "entry_routes p tgw cidr e s")
  have "filter P (trace s') = filter P (trace s)"
    using entry_routes_filter [of P p tgw cidr e s, OF assms] c by simp
  then show ?case
    using Cons.IH [of s'] Cons.IH [of s]
    by (simp add: c split: option.splits list.splits sum.splits)
qed

text \<open>
  C4. The test that guards the deletion compares a string with the list \<open>cidr\<close> and
  is false for every destination and every list; so neither \<open>create_vpc_route_to_tgw\<close>
  nor \<open>get_default_route_table\<close> ever adds a \<open>delete_route\<close> call to the trace,
  whatever the provider answers.
\<close>

theorem delete_route_is_dead_code:
  "py_eq (PyStr dest) (PyList cidr) = False \<and>
   filter is_DeleteRoute (trace (snd (create_vpc_route_to_tgw p vpc_metadata tgw_id cidr s))) =
     filter is_DeleteRoute (trace s) \<and>
   filter is_DeleteRoute (trace (snd (get_default_route_table p returned_vpc cidr vpc_tag s))) =
     filter is_DeleteRoute (trace s)"
proof -
  have "filter is_DeleteRoute (trace (snd (create_vpc_route_to_tgw p vpc_metadata tgw_id cidr s))) =
     filter is_DeleteRoute (trace s)"
    by (cases vpc_metadata) (simp_all add: create_vpc_route_to_tgw_def entry_loop_filter)
  then show ?thesis
    by (simp add: get_default_route_table_filter)
qed

theorem delete_route_is_dead_code_witness:
  "py_eq (PyStr ''10.0.0.0/16'') (PyList [''10.0.0.0/16'']) = False \<and>
   filter is_DeleteRoute
     (trace (snd (create_vpc_route_to_tgw (cloud_provider example_cloud)
        (Some [\<lparr>Vpc = ''vpc-1'', Subnet = Some [''subnet-a''], Route_Tables = Some [''rtb-1'']\<rparr>])
        ''tgw-1'' [''10.0.0.0/16''] (start ())))) = [] \<and>
   filter is_DeleteRoute
     (trace (snd (get_default_route_table (cloud_provider example_cloud) ''vpc-1''
        [''10.0.0.0/16''] ''True'' (start ())))) = []"
  using delete_route_is_dead_code [of "''10.0.0.0/16''" "[''10.0.0.0/16'']"
      "cloud_provider example_cloud"
      "Some [\<lparr>Vpc = ''vpc-1'', Subnet = Some [''subnet-a''], Route_Tables = Some [''rtb-1'']\<rparr>]"
      "''tgw-1''" "start ()" "''vpc-1''" "''True''"]
  by (simp add: start_def)

subsection \<open>The tag list of \<open>get_vpc_metadata\<close>\<close>

lemma split_on_not_Nil: "split_on c xs \<noteq> []"
  by (induction xs) (auto split: list.splits)

lemma split_on_pieces: "t \<in> set (split_on c xs) \<Longrightarrow> c \<notin> set t \<and> set t \<subseteq> set xs"
proof (induction xs arbitrary: t)
  case Nil
  then show ?case by simp
next
  case (Cons x xs)
  show ?case
  proof (cases "x = c")
    case True
    with Cons show ?thesis by auto
  next
    case False
    obtain w ws where w: "split_on c xs = w # ws"
      using split_on_not_Nil [of c xs] by (cases "split_on c xs") auto
    have "t = x # w \<or> t \<in> set ws"
      using Cons.prems False w by simp
    then show ?thesis
    proof
      assume "t = x # w"
      moreover have "c \<notin> set w \<and> set w \<subseteq> set xs"
        using Cons.IH [of w] w by simp
      ultimately show ?thesis using False by auto
    next
      assume "t \<in> set ws"
      then have "c \<notin> set t \<and> set t \<subseteq> set xs"
        using Cons.IH [of t] w by simp
      then show ?thesis by auto
    qed
  qed
qed

lemma vpc_tags_list_no_space: "t \<in> set (vpc_tags_list vpc_tags) \<Longrightarrow> CHR '' '' \<notin> set t"
  using split_on_pieces [of t "CHR '',''" "replace_spaces vpc_tags"]
  by (auto simp: vpc_tags_list_def replace_spaces_def)

lemma tag_value_loop_skips:
  assumes "CHR '' '' \<notin> set t"
  shows "tag_value_loop p cidr t v tvs md s =
         tag_value_loop p cidr t v (filter (\<lambda>tv. CHR '' '' \<notin> set (Value tv)) tvs) md s"
proof (induction tvs arbitrary: md s)
  case Nil
  then show ?case by simp
next
  case (Cons tv tvs)
  show ?case
  proof (cases "Value tv = t")
    case True
    then have "CHR '' '' \<notin> set (Value tv)" using assms by simp
    then show ?thesis using True Cons.IH by (simp split: prod.splits)
  next
    case False
    then show ?thesis using Cons.IH by simp
  qed
qed

subsection \<open>A failure inside the attachment and route loops\<close>

text \<open>A loop over a list in two parts: the second part runs only if the first ran to its end.\<close>

lemma attach_loop_append:
  "attach_loop p tgw (pre @ rest) s =
     (case attach_loop p tgw pre s of
        (True, s1) \<Rightarrow> attach_loop p tgw rest s1
      | (False, s1) \<Rightarrow> (False, s1))"
proof (induction pre arbitrary: s)
  case Nil
  then show ?case by simp
next
  case (Cons e pre)
  show ?case
    using Cons.IH
    by (simp split: option.splits list.splits prod.splits sum.splits)
qed

lemma entry_loop_append:
  "entry_loop p tgw cidr (pre @ rest) s =
     (case entry_loop p tgw cidr pre s of
        (True, s1) \<Rightarrow> entry_loop p tgw cidr rest s1
      | (False, s1) \<Rightarrow> (False, s1))"
proof (induction pre arbitrary: s)
  case Nil
  then show ?case by simp
next
  case (Cons e pre)
  show ?case
    using Cons.IH
    by (simp split: option.splits list.splits prod.splits sum.splits)
qed

text \<open>
  C3, as the code has it. A call that raises while an entry is processed ends the step,
  whatever entries \<open>post\<close> follow. In \<open>create_transit_gateways\<close>: when the
  entries \<open>pre\<close> were attached without a failure and the attachment of \<open>entry\<close>
  raises, the function returns normally and the failed call is the last of its trace (no
  later entry is attached, and there is no sleep). In \<open>create_vpc_route_to_tgw\<close>:
  when the entries \<open>pre'\<close> were processed without a failure and a call for
  \<open>entry'\<close> raises, the function returns normally in the state that call left (no
  later entry gets a call). The two parts are independent of each other.
\<close>

theorem failure_ends_the_step:
  "(attach_loop p tgw_id pre s = (True, s1) \<and> Subnet entry = Some (x # xs) \<and>
    fst (p (world s1) (CreateTransitGatewayVpcAttachment tgw_id (Vpc entry) (x # xs))) = Inl err
    \<longrightarrow>
      fst (create_transit_gateways p (Some (pre @ entry # post)) tgw_id s) = Inr () \<and>
      trace (snd (create_transit_gateways p (Some (pre @ entry # post)) tgw_id s)) =
        trace s1 @ [CreateTransitGatewayVpcAttachment tgw_id (Vpc entry) (x # xs)]) \<and>
   (entry_loop p tgw_id cidr pre' t = (True, t1) \<and> Subnet entry' = Some (y # ys) \<and>
    entry_routes p tgw_id cidr entry' t1 = (Inl err', t2)
    \<longrightarrow>
      create_vpc_route_to_tgw p (Some (pre' @ entry' # post')) tgw_id cidr t = (Inr (), t2))"
proof (intro conjI impI)
  assume a: "attach_loop p tgw_id pre s = (True, s1) \<and> Subnet entry = Some (x # xs) \<and>
    fst (p (world s1) (CreateTransitGatewayVpcAttachment tgw_id (Vpc entry) (x # xs))) = Inl err"
  let ?c = "CreateTransitGatewayVpcAttachment tgw_id (Vpc entry) (x # xs)"
  obtain w' where i: "invoke p ?c s1 = (Inl err, w')"
    using a by (cases "p (world s1) ?c") (simp add: invoke_def)
  have l: "attach_loop p tgw_id (pre @ entry # post) s = (False, w')"
    using a by (simp add: attach_loop_append i)
  show "fst (create_transit_gateways p (Some (pre @ entry # post)) tgw_id s) = Inr ()"
    by (simp add: create_transit_gateways_def l)
  show "trace (snd (create_transit_gateways p (Some (pre @ entry # post)) tgw_id s)) =
        trace s1 @ [?c]"
    using invoke_eq [OF i] by (simp add: create_transit_gateways_def l)
next
  assume b: "entry_loop p tgw_id cidr pre' t = (True, t1) \<and> Subnet entry' = Some (y # ys) \<and>
    entry_routes p tgw_id cidr entry' t1 = (Inl err', t2)"
  have "entry_loop p tgw_id cidr (pre' @ entry' # post') t = (False, t2)"
    using b by (simp add: entry_loop_append)
  then show "create_vpc_route_to_tgw p (Some (pre' @ entry' # post')) tgw_id cidr t = (Inr (), t2)"
    by (simp add: create_vpc_route_to_tgw_def)
qed

text \<open>
  C3, as stated, fails: with two eligible entries and a provider that refuses the calls
  of the first, neither function issues any call for the second.
\<close>

theorem later_entries_are_skipped_counterexample:
  "fst (cloud_provider failing_cloud ()
          (CreateTransitGatewayVpcAttachment ''tgw-1'' ''vpc-1'' [''subnet-a''])) = Inl ClientError \<and>
   trace (snd (create_transit_gateways (cloud_provider failing_cloud) (Some [entry_1, entry_2])
                 ''tgw-1'' (start ()))) =
     [CreateTransitGatewayVpcAttachment ''tgw-1'' ''vpc-1'' [''subnet-a'']] \<and>
   fst (cloud_provider failing_cloud () (DescribeRouteTables (Some [''rtb-1'']))) = Inl ClientError \<and>
   trace (snd (create_vpc_route_to_tgw (cloud_provider failing_cloud) (Some [entry_1, entry_2])
                 ''tgw-1'' [''10.0.0.0/16''] (start ()))) =
     [DescribeRouteTables (Some [''rtb-1''])]"
  by (simp add: cloud_provider_def failing_cloud_def example_cloud_def entry_1_def entry_2_def
      create_transit_gateways_def create_vpc_route_to_tgw_def entry_routes_def fetch_def
      invoke_def start_def)

text \<open>
  Three eligible entries, the second of which fails: on a cloud that refuses one
  attachment only, and on a cloud that refuses one \<open>create_route\<close> only. In each
  the other step runs to its end.
\<close>

theorem failure_ends_the_step_witness:
  "create_transit_gateways (cloud_provider attach_failing_cloud)
       (Some [entry_2, entry_1, entry_3]) ''tgw-1'' (start ()) =
     (Inr (), \<lparr>world = (), trace =
        [CreateTransitGatewayVpcAttachment ''tgw-1'' ''vpc-2'' [''subnet-z''],
         CreateTransitGatewayVpcAttachment ''tgw-1'' ''vpc-1'' [''subnet-a'']]\<rparr>) \<and>
   fst (entry_loop (cloud_provider attach_failing_cloud) ''tgw-1''
          [''10.0.0.0/16'', ''192.168.1.0/24''] [entry_2, entry_1, entry_3] (start ())) = True \<and>
   create_vpc_route_to_tgw (cloud_provider route_failing_cloud)
       (Some [entry_2, entry_1, entry_3]) ''tgw-1'' [''10.0.0.0/16'', ''192.168.1.0/24'']
       (start ()) =
     (Inr (), \<lparr>world = (), trace =
        [DescribeRouteTables (Some [''rtb-2'']),
         DescribeRouteTables (Some [''rtb-1'']),
         CreateRoute ''rtb-1'' ''10.0.0.0/16'' ''tgw-1'',
         CreateRoute ''rtb-1'' ''192.168.1.0/24'' ''tgw-1'']\<rparr>) \<and>
   fst (attach_loop (cloud_provider route_failing_cloud) ''tgw-1''
          [entry_2, entry_1, entry_3] (start ())) = True"
proof -
  let ?pa = "cloud_provider attach_failing_cloud"
  let ?pr = "cloud_provider route_failing_cloud"
  let ?cidr = "[''10.0.0.0/16'', ''192.168.1.0/24'']"
  let ?s1 = "\<lparr>world = (), trace = [CreateTransitGatewayVpcAttachment ''tgw-1'' ''vpc-2'' [''subnet-z'']]\<rparr>"
  let ?t1 = "\<lparr>world = (), trace = [DescribeRouteTables (Some [''rtb-2''])]\<rparr>"
  let ?t2 = "\<lparr>world = (), trace =
        [DescribeRouteTables (Some [''rtb-2'']),
         DescribeRouteTables (Some [''rtb-1'']),
         CreateRoute ''rtb-1'' ''10.0.0.0/16'' ''tgw-1'',
         CreateRoute ''rtb-1'' ''192.168.1.0/24'' ''tgw-1'']\<rparr>"
  have 1: "attach_loop ?pa ''tgw-1'' [entry_2] (start ()) = (True, ?s1)"
    by (simp add: entry_2_def invoke_def cloud_provider_def attach_failing_cloud_def
        example_cloud_def start_def)
  have 2: "Subnet entry_1 = Some (''subnet-a'' # [])" by (simp add: entry_1_def)
  have 3: "fst (?pa (world ?s1)
             (CreateTransitGatewayVpcAttachment ''tgw-1'' (Vpc entry_1) (''subnet-a'' # []))) =
           Inl ClientError"
    by (simp add: cloud_provider_def attach_failing_cloud_def entry_1_def)
  have 4: "entry_loop ?pr ''tgw-1'' ?cidr [entry_2] (start ()) = (True, ?t1)"
    by (simp add: entry_2_def entry_routes_def fetch_def invoke_def cloud_provider_def
        route_failing_cloud_def example_cloud_def start_def)
  have 5: "entry_routes ?pr ''tgw-1'' ?cidr entry_1 ?t1 = (Inl ClientError, ?t2)"
    by (simp add: entry_1_def entry_routes_def fetch_def invoke_def cloud_provider_def
        route_failing_cloud_def example_cloud_def)
  have 6: "Vpc entry_1 = ''vpc-1''" by (simp add: entry_1_def)
  have 7: "fst (entry_loop ?pa ''tgw-1'' ?cidr [entry_2, entry_1, entry_3] (start ())) = True"
    by (simp add: entry_1_def entry_2_def entry_3_def entry_routes_def fetch_def invoke_def
        cloud_provider_def attach_failing_cloud_def example_cloud_def start_def)
  have 8: "fst (attach_loop ?pr ''tgw-1'' [entry_2, entry_1, entry_3] (start ())) = True"
    by (simp add: entry_1_def entry_2_def entry_3_def invoke_def
        cloud_provider_def route_failing_cloud_def example_cloud_def start_def)
  have a: "fst (create_transit_gateways ?pa (Some [entry_2, entry_1, entry_3]) ''tgw-1'' (start ())) = Inr () \<and>
      trace (snd (create_transit_gateways ?pa (Some [entry_2, entry_1, entry_3]) ''tgw-1'' (start ()))) =
        trace ?s1 @ [CreateTransitGatewayVpcAttachment ''tgw-1'' ''vpc-1'' [''subnet-a'']]"
    using failure_ends_the_step [of ?pa "''tgw-1''" "[entry_2]" "start ()" ?s1 entry_1
        "''subnet-a''" "[]" ClientError "[entry_3]" ?cidr "[entry_2]" "start ()" ?t1 entry_1
        "''subnet-a''" "[]" ClientError ?t2 "[entry_3]"] 1 2 3 6
    by simp
  have w: "world (snd (create_transit_gateways ?pa (Some [entry_2, entry_1, entry_3]) ''tgw-1'' (start ()))) = ()"
    by simp
  have b: "create_vpc_route_to_tgw ?pr (Some [entry_2, entry_1, entry_3]) ''tgw-1'' ?cidr (start ()) =
      (Inr (), ?t2)"
    using failure_ends_the_step [of ?pr "''tgw-1''" "[entry_2]" "start ()" ?s1 entry_1
        "''subnet-a''" "[]" ClientError "[entry_3]" ?cidr "[entry_2]" "start ()" ?t1 entry_1
        "''subnet-a''" "[]" ClientError ?t2 "[entry_3]"] 4 5 2
    by simp
  have c: "create_transit_gateways ?pa (Some [entry_2, entry_1, entry_3]) ''tgw-1'' (start ()) =
     (Inr (), \<lparr>world = (), trace =
        [CreateTransitGatewayVpcAttachment ''tgw-1'' ''vpc-2'' [''subnet-z''],
         CreateTransitGatewayVpcAttachment ''tgw-1'' ''vpc-1'' [''subnet-a'']]\<rparr>)"
    using a
    by (cases "create_transit_gateways ?pa (Some [entry_2, entry_1, entry_3]) ''tgw-1'' (start ())")
       (auto)
  show ?thesis using b c 7 8 by simp
qed

subsection \<open>The calls of discovery\<close>

lemma subnet_loop_filter:
  assumes "\<And>c. per_vpc_call c \<Longrightarrow> \<not> P c"
  shows "filter P (trace (snd (subnet_loop p ids m s))) = filter P (trace s)"
proof (induction ids arbitrary: m s)
  case Nil
  then show ?case by simp
next
  case (Cons i ids)
  obtain r s' where f: "fetch p (DescribeSubnetById i) get_Subnets s = (r, s')"
    by (cases "fetch p (DescribeSubnetById i) get_Subnets s")
  have "filter P (trace s') = filter P (trace s)"
    using fetch_eq [OF f] assms by simp
  then show ?case using Cons.IH [of _ s'] by (simp add: f split: sum.splits)
qed

lemma get_subnets_filter:
  assumes "\<And>c. per_vpc_call c \<Longrightarrow> \<not> P c"
  shows "filter P (trace (snd (get_subnets p v t s))) = filter P (trace s)"
proof -
  obtain r s' where f: "fetch p (DescribeSubnetsOfVpc v t) get_Subnets s = (r, s')"
    by (cases "fetch p (DescribeSubnetsOfVpc v t) get_Subnets s")
  have t: "filter P (trace s') = filter P (trace s)"
    using fetch_eq [OF f] assms by simp
  have m: "filter P (trace (snd (get_az_subnet_mapping p v t s))) = filter P (trace s)"
    using subnet_loop_filter [of P p _ "[]" s', OF assms] t
    by (simp add: get_az_subnet_mapping_def f split: sum.splits)
  show ?thesis
    using m by (cases "get_az_subnet_mapping p v t s") (auto simp: get_subnets_def split: sum.splits)
qed

lemma tag_value_loop_filter:
  assumes "\<And>c. per_vpc_call c \<Longrightarrow> \<not> P c"
  shows "filter P (trace (snd (tag_value_loop p cidr t v tvs md s))) = filter P (trace s)"
proof (induction tvs arbitrary: md s)
  case Nil
  then show ?case by simp
next
  case (Cons tv tvs)
  obtain a s1 where g: "get_subnets p v ''True'' s = (a, s1)"
    by (cases "get_subnets p v ''True'' s")
  obtain b s2 where d: "get_default_route_table p v cidr ''True'' s1 = (b, s2)"
    by (cases "get_default_route_table p v cidr ''True'' s1")
  have 1: "filter P (trace s1) = filter P (trace s)"
    using get_subnets_filter [of P p v "''True''" s, OF assms] g by simp
  have 2: "filter P (trace s2) = filter P (trace s1)"
    using get_default_route_table_filter [of P p v cidr "''True''" s1] assms d by simp
  show ?case using Cons.IH 1 2 by (simp add: g d)
qed

lemma vpc_loop_filter:
  assumes "\<And>c. per_vpc_call c \<Longrightarrow> \<not> P c"
  shows "filter P (trace (snd (vpc_loop p cidr t vs md s))) = filter P (trace s)"
proof (induction vs arbitrary: md s)
  case Nil
  then show ?case by simp
next
  case (Cons v vs)
  show ?case
  proof (cases "Tags v")
    case None
    then show ?thesis using Cons.IH by simp
  next
    case (Some tvs)
    obtain md' s' where l: "tag_value_loop p cidr t (VpcId v) tvs md s = (md', s')"
      by (cases "tag_value_loop p cidr t (VpcId v) tvs md s")
    have "filter P (trace s') = filter P (trace s)"
      using tag_value_loop_filter [of P p cidr t "VpcId v" tvs md s, OF assms] l by simp
    then show ?thesis using Cons.IH [of md' s'] by (simp add: Some l)
  qed
qed

lemma tag_loop_filter:
  assumes "\<And>c. per_vpc_call c \<Longrightarrow> \<not> P c" and "\<not> P DescribeVpcs"
  shows "filter P (trace (snd (tag_loop p cidr ts md s))) = filter P (trace s)"
proof (induction ts arbitrary: md s)
  case Nil
  then show ?case by simp
next
  case (Cons t ts)
  obtain r s' where f: "fetch p DescribeVpcs get_Vpcs s = (r, s')"
    by (cases "fetch p DescribeVpcs get_Vpcs s")
  have 1: "filter P (trace s') = filter P (trace s)"
    using fetch_eq [OF f] assms(2) by simp
  show ?case
  proof (cases r)
    case (Inl e)
    then show ?thesis using 1 by (simp add: f)
  next
    case (Inr vs)
    obtain md' s2 where l: "vpc_loop p cidr t vs md s' = (md', s2)"
      by (cases "vpc_loop p cidr t vs md s'")
    have "filter P (trace s2) = filter P (trace s')"
      using vpc_loop_filter [of P p cidr t vs md s', OF assms(1)] l by simp
    then show ?thesis using Cons.IH [of md' s2] 1 by (simp add: f Inr l)
  qed
qed

lemma create_service_link_role_filter:
  assumes "\<not> P ListRoles" and "\<And>x. \<not> P (CreateServiceLinkedRole x)"
  shows "filter P (trace (snd (create_service_link_role p s))) = filter P (trace s)"
proof -
  obtain r s1 where f: "fetch p ListRoles get_Roles s = (r, s1)"
    by (cases "fetch p ListRoles get_Roles s")
  have 1: "filter P (trace s1) = filter P (trace s)"
    using fetch_eq [OF f] assms(1) by simp
  let ?c = "CreateServiceLinkedRole ''transitgateway.amazonaws.com''"
  obtain r2 s2 where i: "invoke p ?c s1 = (r2, s2)"
    by (cases "invoke p ?c s1")
  have 2: "filter P (trace s2) = filter P (trace s1)"
    using invoke_eq [OF i] assms(2) by simp
  show ?thesis
    using 1 2 by (simp add: create_service_link_role_def f i split: sum.splits)
qed

text \<open>
  C2. What the handler does when discovery fails: on a \<open>Create\<close> or \<open>Update\<close>
  event whose role step returned and whose \<open>get_vpc_metadata\<close> returned \<open>None\<close>
  (a \<open>describe_vpcs\<close> call raised), \<open>create_transit_gateways\<close> iterates over
  \<open>None\<close>: the handler raises \<open>TypeError\<close>, and no callback has been added to
  the trace.
\<close>

theorem failed_discovery_raises_before_callback:
  assumes "RequestType ev = ''Create'' \<or> RequestType ev = ''Update''"
    and "fst (create_service_link_role p s) = Inr ()"
    and "fst (get_vpc_metadata p (Account (ResourceProperties ev)) (Region (ResourceProperties ev))
           (Vpc_Tags (ResourceProperties ev)) (split_on CHR '','' (CIDR (ResourceProperties ev)))
           (snd (create_service_link_role p s))) = None"
  shows "fst (lambda_handler p ev ctx s) = Inl TypeError \<and>
         filter is_HttpPut (trace (snd (lambda_handler p ev ctx s))) = filter is_HttpPut (trace s)"
proof -
  let ?cidr = "split_on CHR '','' (CIDR (ResourceProperties ev))"
  obtain s1 where r: "create_service_link_role p s = (Inr (), s1)"
    using assms(2) by (cases "create_service_link_role p s") simp
  obtain s2 where g: "get_vpc_metadata p (Account (ResourceProperties ev))
      (Region (ResourceProperties ev)) (Vpc_Tags (ResourceProperties ev)) ?cidr s1 = (None, s2)"
    using assms(3) r
    by (cases "get_vpc_metadata p (Account (ResourceProperties ev))
      (Region (ResourceProperties ev)) (Vpc_Tags (ResourceProperties ev)) ?cidr s1") simp
  have 1: "filter is_HttpPut (trace s1) = filter is_HttpPut (trace s)"
    using create_service_link_role_filter [of is_HttpPut p s] r by simp
  have hp: "per_vpc_call c \<Longrightarrow> \<not> is_HttpPut c" for c
    by (cases c) simp_all
  have 2: "filter is_HttpPut (trace s2) = filter is_HttpPut (trace s1)"
    using tag_loop_filter
      [of is_HttpPut p ?cidr "vpc_tags_list (Vpc_Tags (ResourceProperties ev))" "[]" s1] g hp
    by (simp add: get_vpc_metadata_def)
  have c: "create_or_update p ev ctx s = (Inl TypeError, s2)"
    by (simp add: create_or_update_def r g create_transit_gateways_def)
  show ?thesis
    using assms(1) 1 2 by (auto simp: lambda_handler_def c)
qed

theorem failed_discovery_raises_before_callback_witness:
  "lambda_handler (cloud_provider outage_cloud) (example_event ''Create'') example_context
     (start ()) = (Inl TypeError, \<lparr>world = (), trace = [ListRoles, DescribeVpcs]\<rparr>)"
proof -
  let ?p = "cloud_provider outage_cloud"
  have r: "create_service_link_role ?p (start ()) = (Inr (), \<lparr>world = (), trace = [ListRoles]\<rparr>)"
    by (simp add: create_service_link_role_def fetch_def invoke_def cloud_provider_def
        outage_cloud_def example_cloud_def start_def)
  have g: "get_vpc_metadata ?p ''111122223333'' ''eu-west-1'' ''prod, shared''
       (split_on CHR '','' ''10.0.0.0/16,192.168.1.0/24'') \<lparr>world = (), trace = [ListRoles]\<rparr> =
       (None, \<lparr>world = (), trace = [ListRoles, DescribeVpcs]\<rparr>)"
    by (simp add: get_vpc_metadata_def vpc_tags_list_def replace_spaces_def fetch_def invoke_def
        cloud_provider_def outage_cloud_def example_cloud_def)
  have e: "RequestType (example_event ''Create'') = ''Create''"
    by (simp add: example_event_def)
  have th: "fst (lambda_handler ?p (example_event ''Create'') example_context (start ())) =
      Inl TypeError"
    using failed_discovery_raises_before_callback
      [of "example_event ''Create''" ?p "start ()" example_context] r g
    by (simp add: example_event_def)
  have "snd (lambda_handler ?p (example_event ''Create'') example_context (start ())) =
      \<lparr>world = (), trace = [ListRoles, DescribeVpcs]\<rparr>"
    using r g e
    by (simp add: lambda_handler_def create_or_update_def create_transit_gateways_def
        example_event_def)
  with th show ?thesis
    by (cases "lambda_handler ?p (example_event ''Create'') example_context (start ())") simp
qed

subsection \<open>The records of discovery\<close>

text \<open>Each loop appends to the records it was given; the VPC ids appended are these.\<close>

lemma tag_value_loop_vpcs:
  "map Vpc (fst (tag_value_loop p cidr t v tvs md s)) =
     map Vpc md @ replicate (length (filter (\<lambda>tv. Value tv = t) tvs)) v"
proof (induction tvs arbitrary: md s)
  case Nil
  then show ?case by simp
next
  case (Cons tv tvs)
  show ?case
    using Cons.IH by (simp split: prod.splits add: replicate_app_Cons_same)
qed

lemma vpc_loop_vpcs:
  "map Vpc (fst (vpc_loop p cidr t vs md s)) =
     map Vpc md @ concat (map (\<lambda>v. replicate (matching_tags t v) (VpcId v)) vs)"
proof (induction vs arbitrary: md s)
  case Nil
  then show ?case by simp
next
  case (Cons v vs)
  show ?case
  proof (cases "Tags v")
    case None
    then show ?thesis using Cons.IH by simp
  next
    case (Some tvs)
    obtain md' s' where l: "tag_value_loop p cidr t (VpcId v) tvs md s = (md', s')"
      by (cases "tag_value_loop p cidr t (VpcId v) tvs md s")
    have "map Vpc md' = map Vpc md @ replicate (length (filter (\<lambda>tv. Value tv = t) tvs)) (VpcId v)"
      using tag_value_loop_vpcs [of p cidr t "VpcId v" tvs md s] l by simp
    then show ?thesis using Cons.IH [of md' s'] by (simp add: Some l)
  qed
qed

lemma tag_loop_steady:
  assumes "\<And>w. fst (p w DescribeVpcs) = Inr (Vpcs vs)"
  shows "\<exists>md'. fst (tag_loop p cidr ts md s) = Some md' \<and>
           map Vpc md' =
             map Vpc md @
             concat (map (\<lambda>t. concat (map (\<lambda>v. replicate (matching_tags t v) (VpcId v)) vs)) ts) \<and>
           filter (\<lambda>c. c = DescribeVpcs) (trace (snd (tag_loop p cidr ts md s))) =
             filter (\<lambda>c. c = DescribeVpcs) (trace s) @ replicate (length ts) DescribeVpcs"
proof (induction ts arbitrary: md s)
  case Nil
  then show ?case by simp
next
  case (Cons t ts)
  let ?P = "\<lambda>c. c = DescribeVpcs"
  obtain s' where f: "fetch p DescribeVpcs get_Vpcs s = (Inr vs, s')"
    using assms [of "world s"]
    by (cases "p (world s) DescribeVpcs") (simp add: fetch_def invoke_def)
  have 1: "filter ?P (trace s') = filter ?P (trace s) @ [DescribeVpcs]"
    using fetch_eq [OF f] by simp
  obtain md1 s2 where l: "vpc_loop p cidr t vs md s' = (md1, s2)"
    by (cases "vpc_loop p cidr t vs md s'")
  have pv: "per_vpc_call c \<Longrightarrow> \<not> ?P c" for c by (cases c) simp_all
  have 2: "filter ?P (trace s2) = filter ?P (trace s')"
    using vpc_loop_filter [of ?P p cidr t vs md s'] l pv by simp
  have 3: "map Vpc md1 = map Vpc md @ concat (map (\<lambda>v. replicate (matching_tags t v) (VpcId v)) vs)"
    using vpc_loop_vpcs [of p cidr t vs md s'] l by simp
  obtain md' where
    4: "fst (tag_loop p cidr ts md1 s2) = Some md'" and
    5: "map Vpc md' = map Vpc md1 @
         concat (map (\<lambda>t. concat (map (\<lambda>v. replicate (matching_tags t v) (VpcId v)) vs)) ts)" and
    6: "filter ?P (trace (snd (tag_loop p cidr ts md1 s2))) =
         filter ?P (trace s2) @ replicate (length ts) DescribeVpcs"
    using Cons.IH [of md1 s2] by blast
  have e: "tag_loop p cidr (t # ts) md s = tag_loop p cidr ts md1 s2"
    by (simp add: f l)
  show ?case
    unfolding e using 4 5 6 3 2 1 by (simp add: replicate_app_Cons_same)
qed

text \<open>
  C5, as the code has it. When every \<open>describe_vpcs\<close> call answers with the list
  \<open>vs\<close>, \<open>get_vpc_metadata\<close> returns a list, issues one \<open>describe_vpcs\<close>
  call per tag of the tag list, and appends, for each tag of the list in turn and each
  VPC of the answer in turn, one record per tag of the VPC whose value is that tag: as
  many records for a VPC as it has matches.
\<close>

theorem one_record_per_matching_tag:
  assumes "\<And>w. fst (p w DescribeVpcs) = Inr (Vpcs vs)"
  shows "\<exists>md. fst (get_vpc_metadata p account region vpc_tags cidr s) = Some md \<and>
           map Vpc md =
             concat (map (\<lambda>t. concat (map (\<lambda>v. replicate (matching_tags t v) (VpcId v)) vs))
                       (vpc_tags_list vpc_tags)) \<and>
           filter (\<lambda>c. c = DescribeVpcs)
               (trace (snd (get_vpc_metadata p account region vpc_tags cidr s))) =
             filter (\<lambda>c. c = DescribeVpcs) (trace s) @
             replicate (length (vpc_tags_list vpc_tags)) DescribeVpcs"
  using tag_loop_steady [of p vs cidr "vpc_tags_list vpc_tags" "[]" s, OF assms]
  by (simp add: get_vpc_metadata_def)

text \<open>The example cloud, evaluated.\<close>

lemma example_get_subnets:
  "get_subnets (cloud_provider example_cloud) ''vpc-1'' ''True'' \<lparr>world = (), trace = tr\<rparr> =
     (Some [''subnet-a'', ''subnet-c''],
      \<lparr>world = (), trace = tr @ [DescribeSubnetsOfVpc ''vpc-1'' ''True'', DescribeSubnetById ''subnet-a'',
         DescribeSubnetById ''subnet-b'', DescribeSubnetById ''subnet-c'']\<rparr>)"
  by (simp add: get_subnets_def get_az_subnet_mapping_def fetch_def invoke_def cloud_provider_def
      example_cloud_def add_az_def)

lemma example_get_default_route_table:
  "get_default_route_table (cloud_provider example_cloud) ''vpc-1'' cidr ''True''
       \<lparr>world = (), trace = tr\<rparr> =
     (Some [''rtb-1''],
      \<lparr>world = (), trace = tr @ [DescribeRouteTablesOfVpc ''vpc-1'' ''True'',
         DescribeRouteTables (Some [''rtb-1''])]\<rparr>)"
  by (simp add: get_default_route_table_def fetch_def invoke_def cloud_provider_def
      example_cloud_def route_loop_noop)

text \<open>
  C5, as stated, fails: \<open>vpc-1\<close> carries two tags of value \<open>prod\<close>, and the tag
  list \<open>prod\<close> gives two records for it.
\<close>

theorem two_records_for_one_vpc_counterexample:
  "fst (get_vpc_metadata (cloud_provider example_cloud) ''111122223333'' ''eu-west-1'' ''prod''
          [''10.0.0.0/16''] (start ())) =
     Some [\<lparr>Vpc = ''vpc-1'', Subnet = Some [''subnet-a'', ''subnet-c''], Route_Tables = Some [''rtb-1'']\<rparr>,
           \<lparr>Vpc = ''vpc-1'', Subnet = Some [''subnet-a'', ''subnet-c''], Route_Tables = Some [''rtb-1'']\<rparr>]"
proof -
  have f: "fetch (cloud_provider example_cloud) DescribeVpcs get_Vpcs (start ()) =
     (Inr (cloud_vpcs example_cloud), \<lparr>world = (), trace = [DescribeVpcs]\<rparr>)"
    by (simp add: fetch_def invoke_def cloud_provider_def example_cloud_def start_def)
  have v: "cloud_vpcs example_cloud =
        [\<lparr>VpcId = ''vpc-1'',
          Tags = Some [\<lparr>Key = ''Name'', Value = ''prod''\<rparr>, \<lparr>Key = ''Env'', Value = ''prod''\<rparr>]\<rparr>]"
    by (simp add: example_cloud_def)
  show ?thesis
    by (simp add: get_vpc_metadata_def vpc_tags_list_def replace_spaces_def f v
        example_get_subnets example_get_default_route_table)
qed

theorem one_record_per_matching_tag_witness:
  "map_option (map Vpc)
     (fst (get_vpc_metadata (cloud_provider example_cloud) ''111122223333'' ''eu-west-1''
        ''prod, shared'' [''10.0.0.0/16''] (start ()))) = Some [''vpc-1'', ''vpc-1''] \<and>
   filter (\<lambda>c. c = DescribeVpcs)
     (trace (snd (get_vpc_metadata (cloud_provider example_cloud) ''111122223333'' ''eu-west-1''
        ''prod, shared'' [''10.0.0.0/16''] (start ())))) = [DescribeVpcs, DescribeVpcs]"
proof -
  have h: "\<And>w. fst (cloud_provider example_cloud w DescribeVpcs) = Inr (Vpcs (cloud_vpcs example_cloud))"
    by (simp add: cloud_provider_def example_cloud_def)
  have l: "vpc_tags_list ''prod, shared'' = [''prod'', ''shared'']"
    by (simp add: vpc_tags_list_def replace_spaces_def)
  have v: "cloud_vpcs example_cloud =
        [\<lparr>VpcId = ''vpc-1'',
          Tags = Some [\<lparr>Key = ''Name'', Value = ''prod''\<rparr>, \<lparr>Key = ''Env'', Value = ''prod''\<rparr>]\<rparr>]"
    by (simp add: example_cloud_def)
  show ?thesis
    using one_record_per_matching_tag [of "cloud_provider example_cloud" "cloud_vpcs example_cloud"
        "''111122223333''" "''eu-west-1''" "''prod, shared''" "[''10.0.0.0/16'']" "start ()", OF h]
    by (auto simp: l v start_def numeral_2_eq_2)
qed

subsection \<open>Tag values with spaces\<close>

text \<open>
  A provider and the one that drops the spaced tags give the same runs of every function
  that does not read the tags of a VPC, and of the matching loops for a tag without space.
\<close>

lemma invoke_unspaced:
  "invoke (unspaced_provider p) c s =
     (case invoke p c s of
        (Inl e, s') \<Rightarrow> (Inl e, s')
      | (Inr r, s') \<Rightarrow> (Inr (without_spaced_tags r), s'))"
  by (cases "p (world s) c") (auto simp: invoke_def unspaced_provider_def split: sum.splits)

lemma fetch_unspaced:
  assumes "\<And>r. key (without_spaced_tags r) = key r"
  shows "fetch (unspaced_provider p) c key s = fetch p c key s"
  by (cases "invoke p c s") (auto simp: fetch_def invoke_unspaced assms split: sum.splits)

lemma get_Subnets_unspaced: "get_Subnets (without_spaced_tags r) = get_Subnets r"
  by (cases r) simp_all

lemma get_RouteTables_unspaced: "get_RouteTables (without_spaced_tags r) = get_RouteTables r"
  by (cases r) simp_all

lemma subnet_loop_unspaced:
  "subnet_loop (unspaced_provider p) ids m s = subnet_loop p ids m s"
  by (induction ids arbitrary: m s)
     (simp_all add: fetch_unspaced get_Subnets_unspaced split: prod.splits sum.splits)

lemma get_subnets_unspaced:
  "get_subnets (unspaced_provider p) v t s = get_subnets p v t s"
  by (simp add: get_subnets_def get_az_subnet_mapping_def fetch_unspaced get_Subnets_unspaced
      subnet_loop_unspaced cong: prod.case_cong sum.case_cong)

lemma route_table_loop_unspaced:
  "route_table_loop (unspaced_provider p) cidr ids s = route_table_loop p cidr ids s"
  by (induction ids arbitrary: s)
     (simp_all add: fetch_unspaced get_RouteTables_unspaced route_loop_noop
        split: prod.splits sum.splits list.splits)

lemma get_default_route_table_unspaced:
  "get_default_route_table (unspaced_provider p) v cidr t s = get_default_route_table p v cidr t s"
  by (simp add: get_default_route_table_def fetch_unspaced get_RouteTables_unspaced
      route_table_loop_unspaced cong: prod.case_cong sum.case_cong)

lemma tag_value_loop_unspaced:
  "tag_value_loop (unspaced_provider p) cidr t v tvs md s = tag_value_loop p cidr t v tvs md s"
  by (induction tvs arbitrary: md s)
     (simp_all add: get_subnets_unspaced get_default_route_table_unspaced split: prod.splits)

lemma vpc_loop_unspaced:
  assumes "CHR '' '' \<notin> set t"
  shows "vpc_loop (unspaced_provider p) cidr t (map drop_spaced_tags vs) md s =
         vpc_loop p cidr t vs md s"
proof (induction vs arbitrary: md s)
  case Nil
  then show ?case by simp
next
  case (Cons v vs)
  show ?case
  proof (cases "Tags v")
    case None
    then show ?thesis using Cons.IH by (simp add: drop_spaced_tags_def)
  next
    case (Some tvs)
    have "tag_value_loop p cidr t (VpcId v) (filter unspaced tvs) md s =
          tag_value_loop p cidr t (VpcId v) tvs md s"
      using tag_value_loop_skips [OF assms, of p cidr "VpcId v" tvs md s]
      by (simp add: unspaced_def [abs_def])
    then show ?thesis
      using Cons.IH by (simp add: Some drop_spaced_tags_def tag_value_loop_unspaced split: prod.splits)
  qed
qed

lemma fetch_vpcs_unspaced:
  "fetch (unspaced_provider p) DescribeVpcs get_Vpcs s =
     (case fetch p DescribeVpcs get_Vpcs s of
        (Inl e, s') \<Rightarrow> (Inl e, s')
      | (Inr vs, s') \<Rightarrow> (Inr (map drop_spaced_tags vs), s'))"
proof (cases "invoke p DescribeVpcs s")
  case (Pair a s')
  show ?thesis
  proof (cases a)
    case (Inl e)
    then show ?thesis using Pair by (simp add: fetch_def invoke_unspaced)
  next
    case (Inr r)
    then show ?thesis using Pair by (cases r) (simp_all add: fetch_def invoke_unspaced)
  qed
qed

lemma tag_loop_unspaced:
  assumes "list_all (\<lambda>t. CHR '' '' \<notin> set t) ts"
  shows "tag_loop (unspaced_provider p) cidr ts md s = tag_loop p cidr ts md s"
  using assms
proof (induction ts arbitrary: md s)
  case Nil
  then show ?case by simp
next
  case (Cons t ts)
  have t: "CHR '' '' \<notin> set t" and ts: "list_all (\<lambda>t. CHR '' '' \<notin> set t) ts"
    using Cons.prems by simp_all
  show ?case
    using Cons.IH [OF ts] vpc_loop_unspaced [OF t, of p cidr]
    by (simp add: fetch_vpcs_unspaced split: prod.splits sum.splits)
qed

lemma vpc_tags_list_unspaced: "list_all (\<lambda>t. CHR '' '' \<notin> set t) (vpc_tags_list vpc_tags)"
  using vpc_tags_list_no_space [of _ vpc_tags] by (simp add: list_all_iff)

lemma matching_tags_unspaced:
  "CHR '' '' \<notin> set t \<Longrightarrow> matching_tags t v = unspaced_matching_tags t v"
proof -
  assume a: "CHR '' '' \<notin> set t"
  have "filter (\<lambda>tv. Value tv = t) tvs = filter (\<lambda>tv. Value tv = t \<and> unspaced tv) tvs" for tvs
    using a by (induction tvs) (auto simp: unspaced_def)
  then show ?thesis by (simp add: unspaced_matching_tags_def split: option.splits)
qed

lemma unspaced_counts:
  "list_all (\<lambda>t. CHR '' '' \<notin> set t) ts \<Longrightarrow>
   map (\<lambda>t. concat (map (\<lambda>v. replicate (matching_tags t v) (VpcId v)) vs)) ts =
   map (\<lambda>t. concat (map (\<lambda>v. replicate (unspaced_matching_tags t v) (VpcId v)) vs)) ts"
  by (induction ts) (simp_all add: matching_tags_unspaced del: matching_tags.simps)

text \<open>
  C10. \<open>get_vpc_metadata\<close> does on the parameter what it does on the parameter
  without its spaces, and no tag it matches against contains a space. A VPC tag whose
  value contains a space is never matched: for every provider the run is the run against
  the provider that drops those tags; and when \<open>describe_vpcs\<close> answers the list
  \<open>vs\<close>, the records are those of the matches between the pieces of the stripped
  parameter and the unspaced tags of \<open>vs\<close>.
\<close>

theorem spaced_tag_values_never_match:
  assumes "\<And>w. fst (p w DescribeVpcs) = Inr (Vpcs vs)"
  shows "get_vpc_metadata q account region vpc_tags cidr s =
           get_vpc_metadata q account region (filter (\<lambda>ch. ch \<noteq> CHR '' '') vpc_tags) cidr s \<and>
         list_all (\<lambda>t. CHR '' '' \<notin> set t) (vpc_tags_list vpc_tags) \<and>
         get_vpc_metadata (unspaced_provider q) account region vpc_tags cidr s =
           get_vpc_metadata q account region vpc_tags cidr s \<and>
         (\<exists>md. fst (get_vpc_metadata p account region vpc_tags cidr s') = Some md \<and>
            map Vpc md =
              concat (map (\<lambda>t. concat (map (\<lambda>v. replicate (unspaced_matching_tags t v) (VpcId v)) vs))
                        (split_on CHR '','' (filter (\<lambda>ch. ch \<noteq> CHR '' '') vpc_tags))))"
proof -
  have idem: "vpc_tags_list (filter (\<lambda>ch. ch \<noteq> CHR '' '') vpc_tags) = vpc_tags_list vpc_tags"
    by (simp add: vpc_tags_list_def replace_spaces_def)
  have a: "get_vpc_metadata q account region vpc_tags cidr s =
           get_vpc_metadata q account region (filter (\<lambda>ch. ch \<noteq> CHR '' '') vpc_tags) cidr s"
    by (simp add: get_vpc_metadata_def idem)
  have c: "get_vpc_metadata (unspaced_provider q) account region vpc_tags cidr s =
           get_vpc_metadata q account region vpc_tags cidr s"
    by (simp add: get_vpc_metadata_def tag_loop_unspaced [OF vpc_tags_list_unspaced])
  obtain md where m: "fst (get_vpc_metadata p account region vpc_tags cidr s') = Some md"
    and v: "map Vpc md =
      concat (map (\<lambda>t. concat (map (\<lambda>v. replicate (matching_tags t v) (VpcId v)) vs))
                (vpc_tags_list vpc_tags))"
    using tag_loop_steady [of p vs cidr "vpc_tags_list vpc_tags" "[]" s', OF assms]
    by (auto simp: get_vpc_metadata_def simp del: matching_tags.simps)
  have e: "vpc_tags_list vpc_tags = split_on CHR '','' (filter (\<lambda>ch. ch \<noteq> CHR '' '') vpc_tags)"
    by (simp add: vpc_tags_list_def replace_spaces_def)
  have "map Vpc md =
      concat (map (\<lambda>t. concat (map (\<lambda>v. replicate (unspaced_matching_tags t v) (VpcId v)) vs))
                (vpc_tags_list vpc_tags))"
    using v unspaced_counts [OF vpc_tags_list_unspaced, of vs vpc_tags]
    by (simp del: matching_tags.simps)
  then have "map Vpc md =
      concat (map (\<lambda>t. concat (map (\<lambda>v. replicate (unspaced_matching_tags t v) (VpcId v)) vs))
                (split_on CHR '','' (filter (\<lambda>ch. ch \<noteq> CHR '' '') vpc_tags)))"
    unfolding e .
  then show ?thesis using a c m vpc_tags_list_unspaced [of vpc_tags] by blast
qed

text \<open>
  The parameter \<open>my tag\<close> selects the VPC tagged \<open>mytag\<close>, not the one tagged
  \<open>my tag\<close>.
\<close>

theorem spaced_tag_values_never_match_witness:
  "map_option (map Vpc)
     (fst (get_vpc_metadata (cloud_provider spaced_cloud) ''111122223333'' ''eu-west-1''
             ''my tag'' [''10.0.0.0/16''] (start ()))) = Some [''vpc-2''] \<and>
   vpc_tags_list ''my tag'' = [''mytag'']"
proof -
  let ?vs = "[\<lparr>VpcId = ''vpc-1'', Tags = Some [\<lparr>Key = ''Name'', Value = ''my tag''\<rparr>]\<rparr>,
              \<lparr>VpcId = ''vpc-2'', Tags = Some [\<lparr>Key = ''Name'', Value = ''mytag''\<rparr>]\<rparr>]"
  have h: "\<And>w. fst (cloud_provider spaced_cloud w DescribeVpcs) = Inr (Vpcs ?vs)"
    by (simp add: cloud_provider_def spaced_cloud_def example_cloud_def)
  have l: "vpc_tags_list ''my tag'' = [''mytag'']"
    by (simp add: vpc_tags_list_def replace_spaces_def)
  show ?thesis
    using spaced_tag_values_never_match [of "cloud_provider spaced_cloud" ?vs
        "cloud_provider spaced_cloud" "''111122223333''" "''eu-west-1''" "''my tag''"
        "[''10.0.0.0/16'']" "start ()" "start ()", OF h] l
    by (auto simp: unspaced_matching_tags_def unspaced_def)
qed

subsection \<open>The subnets of \<open>get_subnets\<close>\<close>


text \<open>
  Whatever the provider answers, the zones of \<open>az_subnet_mapping\<close> are pairwise
  different: a subnet is added only when its zone is not yet a key.
\<close>

lemma list_ex_zone: "list_ex (\<lambda>az. fst az = z) m = (z \<in> fst ` set m)"
  by (induction m) auto

lemma add_az_zones:
  "distinct (map fst m) \<Longrightarrow> distinct (map fst (add_az m sub))"
  by (simp add: add_az_def list_ex_zone)

lemma az_loop_zones:
  "distinct (map fst m) \<Longrightarrow> distinct (map fst (az_loop subs m))"
  by (induction subs arbitrary: m) (simp_all add: add_az_zones)

lemma subnet_loop_zones:
  "distinct (map fst m) \<Longrightarrow> fst (subnet_loop p ids m s) = Inr m' \<Longrightarrow> distinct (map fst m')"
proof (induction ids arbitrary: m s)
  case Nil
  then show ?case by simp
next
  case (Cons i ids)
  obtain r s' where f: "fetch p (DescribeSubnetById i) get_Subnets s = (r, s')"
    by (cases "fetch p (DescribeSubnetById i) get_Subnets s")
  show ?case
  proof (cases r)
    case (Inl e)
    then show ?thesis using Cons.prems(2) by (simp add: f)
  next
    case (Inr subs)
    then show ?thesis
      using Cons.IH [of "az_loop subs m" s'] Cons.prems az_loop_zones [of m subs]
      by (simp add: f)
  qed
qed

lemma get_az_subnet_mapping_zones:
  "fst (get_az_subnet_mapping p v t s) = Inr m \<Longrightarrow> distinct (map fst m)"
proof -
  assume a: "fst (get_az_subnet_mapping p v t s) = Inr m"
  obtain r s' where f: "fetch p (DescribeSubnetsOfVpc v t) get_Subnets s = (r, s')"
    by (cases "fetch p (DescribeSubnetsOfVpc v t) get_Subnets s")
  show ?thesis
  proof (cases r)
    case (Inl e)
    then show ?thesis using a by (simp add: get_az_subnet_mapping_def f)
  next
    case (Inr entries)
    then show ?thesis
      using a subnet_loop_zones [of "[]" p "map SubnetId entries" s' m]
      by (simp add: get_az_subnet_mapping_def f)
  qed
qed









subsection \<open>The routes of \<open>create_vpc_route_to_tgw\<close>\<close>









end
